theory Spec2Isabelle
  imports Complex_Main "HOL-Library.Word" "HOL-Library.Log_Nat"
begin

unbundle bit_operations_syntax

section \<open>EmojiGAN: the notebook's image loader, network builders and training loop\<close>

text \<open>
  The notebook \<^verbatim>\<open>emojigan.ipynb\<close> loads a directory of emoji images, builds a
  generator, a discriminator and the chained GAN model with Keras, and trains them in
  \<^verbatim>\<open>train_gan\<close>. Keras, NumPy and OpenCV are outside the notebook: what the
  notebook relies on of them is written out below, next to each definition, and their
  numeric kernels (prediction, optimizer steps, interpolation, random draws) are
  parameters of the model.
\<close>

subsection \<open>Python exceptions\<close>

datatype error = AttributeError | IndexError | ValueError | ZeroDivisionError | Cv2Error

subsection \<open>Double precision arithmetic\<close>

text \<open>
  Python's \<^verbatim>\<open>float\<close> and NumPy's \<^verbatim>\<open>float64\<close> are IEEE 754 binary64 numbers.
  A finite double is a rational number; every arithmetic operation returns the exact
  result rounded to the nearest number with a 53 bit significand, ties to the even
  significand. The range of the exponent is not modelled (no overflow to infinity, no
  subnormal numbers): the loader and the label arithmetic stay far inside it.
\<close>

definition pow2 :: "int \<Rightarrow> rat" where
  "pow2 k = (if 0 \<le> k then 2 ^ nat k else 1 / 2 ^ nat (- k))"

text \<open>For \<open>x > 0\<close>, \<open>expo x\<close> is the exponent \<open>e\<close> with \<open>2\<^sup>e \<le> x < 2\<^sup>e\<^sup>+\<^sup>1\<close>.\<close>

definition expo :: "rat \<Rightarrow> int" where
  "expo x = (case quotient_of x of (p, q) \<Rightarrow>
     (let k = bitlen p - bitlen q in if pow2 k \<le> x then k else k - 1))"

definition round_half_even :: "rat \<Rightarrow> int" where
  "round_half_even r =
     (let f = \<lfloor>r\<rfloor>; d = r - of_int f
      in if d < 1 / 2 then f
         else if 1 / 2 < d then f + 1
         else if even f then f else f + 1)"

definition fl_pos :: "rat \<Rightarrow> rat" where
  "fl_pos x = of_int (round_half_even (x / pow2 (expo x - 52))) * pow2 (expo x - 52)"

definition fl :: "rat \<Rightarrow> rat" where
  "fl x = (if x = 0 then 0 else if x < 0 then - fl_pos (- x) else fl_pos x)"

definition fadd :: "rat \<Rightarrow> rat \<Rightarrow> rat" where
  "fadd x y = fl (x + y)"

definition fsub :: "rat \<Rightarrow> rat \<Rightarrow> rat" where
  "fsub x y = fl (x - y)"

definition fmul :: "rat \<Rightarrow> rat \<Rightarrow> rat" where
  "fmul x y = fl (x * y)"

text \<open>Division: every divisor in the notebook is the literal \<^verbatim>\<open>255.0\<close>.\<close>

definition fdiv :: "rat \<Rightarrow> rat \<Rightarrow> rat" where
  "fdiv x y = fl (x / y)"

subsection \<open>Arrays and the image loader\<close>

text \<open>
  A three-dimensional NumPy array: its shape and its elements. \<open>px a i j k\<close> is
  \<^verbatim>\<open>a[i, j, k]\<close> and is meaningful for \<open>i < nrows a\<close>, \<open>j < ncols a\<close>, \<open>k < nchans a\<close>.
\<close>

record 'a array3 =
  nrows :: nat
  ncols :: nat
  nchans :: nat
  px :: "nat \<Rightarrow> nat \<Rightarrow> nat \<Rightarrow> 'a"

type_synonym uint8 = "8 word"

type_synonym uint16 = "16 word"

text \<open>
  \<^verbatim>\<open>cv2.imread(path, -1)\<close> reads a file as it is: it gives \<^verbatim>\<open>None\<close> for a file
  that it cannot decode, a two-dimensional array for a grey image, and otherwise a
  three-dimensional array of \<^verbatim>\<open>uint8\<close> or, for a file of 16 bit depth, of
  \<^verbatim>\<open>uint16\<close>.
\<close>

datatype image = Image8 "uint8 array3" | Image16 "uint16 array3"

datatype ndarray = Array2 nat nat | Array3 image

text \<open>
  \<^verbatim>\<open>np.uint8(x)\<close> of a double: the fraction is cut off and the integer wraps to
  8 bits; an integer part outside the range of 32 bit integers gives 0.
\<close>

definition np_uint8 :: "rat \<Rightarrow> uint8" where
  "np_uint8 x =
     (let t = (if 0 \<le> x then \<lfloor>x\<rfloor> else \<lceil>x\<rceil>)
      in if - (2 ^ 31) \<le> t \<and> t < 2 ^ 31 then word_of_int t else 0)"

text \<open>An unsigned integer as a double: exact, at both depths.\<close>

definition float_of_word :: "'a::len word \<Rightarrow> rat" where
  "float_of_word v = of_nat (unat v)"

text \<open>
  \<^verbatim>\<open>cv2.addWeighted(src1, alpha, src2, beta, gamma)\<close> on arrays of doubles, at one
  element: \<^verbatim>\<open>src1*alpha + src2*beta + gamma\<close>, each product and each sum rounded.
  A build of OpenCV that fuses a product with the sum rounds once less; the two agree
  where one of the terms is zero, as at the pixels of alpha 0 and of alpha 255, and
  can differ by one unit of the result at a partly transparent pixel.
\<close>

definition cv2_addWeighted :: "rat \<Rightarrow> rat \<Rightarrow> rat \<Rightarrow> rat \<Rightarrow> rat \<Rightarrow> rat" where
  "cv2_addWeighted src1 alpha src2 beta gamma = fadd (fadd (fmul src1 alpha) (fmul src2 beta)) gamma"

text \<open>
  \<^verbatim>\<open>remove_transparency(source, background_color)\<close>. The slice
  \<^verbatim>\<open>source[:, :, 3]\<close> raises IndexError on an array with fewer than four channels.
  The background colour is a non-negative Python integer.
\<close>

definition remove_transparency :: "'a::len word array3 \<Rightarrow> nat \<Rightarrow> error + uint8 array3" where
  "remove_transparency source background_color =
     (if nchans source < 4 then Inl IndexError
      else
        let source_img = (\<lambda>i j k. px source i j k);
            source_mask = (\<lambda>i j. fmul (float_of_word (px source i j 3)) (fdiv 1 255));
            background_mask = (\<lambda>i j. fsub 1 (source_mask i j));
            bg_part = (\<lambda>i j. fmul (fmul (fl (of_nat background_color)) (fdiv 1 255))
                                    (background_mask i j));
            source_part = (\<lambda>i j k. fmul (fmul (float_of_word (source_img i j k)) (fdiv 1 255))
                                          (source_mask i j))
        in Inr \<lparr>nrows = nrows source, ncols = ncols source, nchans = 3,
                px = (\<lambda>i j k. np_uint8 (cv2_addWeighted (bg_part i j) 255 (source_part i j k) 255 0))\<rparr>)"

text \<open>\<^verbatim>\<open>cv2.cvtColor(img, cv2.COLOR_BGR2RGB)\<close>: three or four channels in, three out.\<close>

definition cv2_cvtColor_BGR2RGB :: "'a array3 \<Rightarrow> error + 'a array3" where
  "cv2_cvtColor_BGR2RGB img =
     (if nchans img = 3 \<or> nchans img = 4
      then Inr \<lparr>nrows = nrows img, ncols = ncols img, nchans = 3,
                px = (\<lambda>i j k. px img i j (2 - k))\<rparr>
      else Inl Cv2Error)"

text \<open>
  \<^verbatim>\<open>cv2.resize(img, dsize)\<close>: \<open>dsize\<close> is (width, height) of the result, so the
  result has \<open>snd dsize\<close> rows and \<open>fst dsize\<close> columns, and the depth of \<open>img\<close>. The
  interpolation is the parameter \<open>interp\<close>: \<open>interp img h w\<close> gives the elements of
  the result of \<open>h\<close> rows and \<open>w\<close> columns.
\<close>

type_synonym 'a interpolation = "'a array3 \<Rightarrow> nat \<Rightarrow> nat \<Rightarrow> (nat \<Rightarrow> nat \<Rightarrow> nat \<Rightarrow> 'a)"

definition cv2_resize :: "'a interpolation \<Rightarrow> 'a array3 \<Rightarrow> nat \<times> nat \<Rightarrow> error + 'a array3" where
  "cv2_resize interp img dsize =
     (case dsize of (w, h) \<Rightarrow>
        if w = 0 \<or> h = 0 then Inl Cv2Error
        else Inr \<lparr>nrows = h, ncols = w, nchans = nchans img, px = interp img h w\<rparr>)"

text \<open>
  The two statements that end the body of the loop of \<^verbatim>\<open>get_images\<close>:
  \<^verbatim>\<open>img = cv2.cvtColor(img, cv2.COLOR_BGR2RGB); img = cv2.resize(img, (height, width))\<close>.
\<close>

definition convert_and_resize ::
  "'a interpolation \<Rightarrow> nat \<Rightarrow> nat \<Rightarrow> 'a array3 \<Rightarrow> error + 'a array3" where
  "convert_and_resize interp height width img =
     (case cv2_cvtColor_BGR2RGB img of
        Inl e \<Rightarrow> Inl e
      | Inr img \<Rightarrow> cv2_resize interp img (height, width))"

text \<open>
  The body of the loop of \<^verbatim>\<open>get_images\<close>, for one path. An array of four
  channels leaves \<^verbatim>\<open>remove_transparency\<close> as \<^verbatim>\<open>uint8\<close>; any other keeps
  its depth. \<open>interp8\<close> and \<open>interp16\<close> are the interpolation at the two depths.
\<close>

definition load_image ::
  "(string \<Rightarrow> ndarray option) \<Rightarrow> uint8 interpolation \<Rightarrow> uint16 interpolation \<Rightarrow> nat \<Rightarrow> nat
     \<Rightarrow> string \<Rightarrow> error + image" where
  "load_image imread interp8 interp16 height width image_path =
     (case imread image_path of
        None \<Rightarrow> Inl AttributeError
      | Some (Array2 h w) \<Rightarrow> Inl IndexError
      | Some (Array3 (Image8 img)) \<Rightarrow>
          (case (if nchans img = 4 then remove_transparency img 255 else Inr img) of
             Inl e \<Rightarrow> Inl e
           | Inr img \<Rightarrow> map_sum id Image8 (convert_and_resize interp8 height width img))
      | Some (Array3 (Image16 img)) \<Rightarrow>
          (if nchans img = 4
           then (case remove_transparency img 255 of
                   Inl e \<Rightarrow> Inl e
                 | Inr img \<Rightarrow> map_sum id Image8 (convert_and_resize interp8 height width img))
           else map_sum id Image16 (convert_and_resize interp16 height width img)))"

fun load_loop ::
  "(string \<Rightarrow> error + image) \<Rightarrow> string list \<Rightarrow> image list \<Rightarrow> error + image list" where
  "load_loop body [] images = Inr images"
| "load_loop body (image_path # rest) images =
     (case body image_path of
        Inl e \<Rightarrow> Inl e
      | Inr img \<Rightarrow> load_loop body rest (images @ [img]))"

text \<open>\<^verbatim>\<open>np.asarray(images) / 255.\<close>, for one image of the array.\<close>

definition divide_by_255 :: "'a::len word array3 \<Rightarrow> rat array3" where
  "divide_by_255 img =
     \<lparr>nrows = nrows img, ncols = ncols img, nchans = nchans img,
      px = (\<lambda>i j k. fdiv (float_of_word (px img i j k)) 255)\<rparr>"

fun scale_image :: "image \<Rightarrow> rat array3" where
  "scale_image (Image8 img) = divide_by_255 img"
| "scale_image (Image16 img) = divide_by_255 img"

text \<open>
  \<^verbatim>\<open>get_images(image_dir, height, width)\<close>; \<open>glob\<close> and \<open>imread\<close> stand for the
  file system.
\<close>

definition get_images ::
  "(string \<Rightarrow> string list) \<Rightarrow> (string \<Rightarrow> ndarray option) \<Rightarrow> uint8 interpolation
     \<Rightarrow> uint16 interpolation \<Rightarrow> string \<Rightarrow> nat \<Rightarrow> nat \<Rightarrow> error + rat array3 list" where
  "get_images glob imread interp8 interp16 image_dir height width =
     (case load_loop (load_image imread interp8 interp16 height width) (glob image_dir) [] of
        Inl e \<Rightarrow> Inl e
      | Inr images \<Rightarrow> Inr (map scale_image images))"

subsection \<open>Network builders\<close>

text \<open>
  The layers the notebook uses, with the arguments it gives them; every convolution has
  \<^verbatim>\<open>padding="same"\<close>. \<open>output_shape\<close> is the shape inference of Keras for one sample.
\<close>

datatype layer =
    Dense nat
  | Reshape "nat list"
  | LeakyReLU
  | Dropout rat
  | Conv2D nat nat nat
  | Conv2DTranspose nat nat nat
  | Flatten
  | Activation string

fun output_shape :: "layer \<Rightarrow> nat list \<Rightarrow> nat list option" where
  "output_shape (Dense units) shape =
     (if shape = [] then None else Some (butlast shape @ [units]))"
| "output_shape (Reshape target) shape =
     (if prod_list target = prod_list shape then Some target else None)"
| "output_shape (Conv2D filters kernel_size strides) shape =
     (case shape of
        [h, w, c] \<Rightarrow>
          if strides = 0 then None
          else Some [(h + strides - 1) div strides, (w + strides - 1) div strides, filters]
      | _ \<Rightarrow> None)"
| "output_shape (Conv2DTranspose filters kernel_size strides) shape =
     (case shape of
        [h, w, c] \<Rightarrow> if strides = 0 then None else Some [h * strides, w * strides, filters]
      | _ \<Rightarrow> None)"
| "output_shape Flatten shape = Some [prod_list shape]"
| "output_shape LeakyReLU shape = Some shape"
| "output_shape (Dropout rate) shape = Some shape"
| "output_shape (Activation name) shape = Some shape"

fun model_output_shape :: "layer list \<Rightarrow> nat list \<Rightarrow> nat list option" where
  "model_output_shape [] shape = Some shape"
| "model_output_shape (l # ls) shape =
     (case output_shape l shape of None \<Rightarrow> None | Some shape' \<Rightarrow> model_output_shape ls shape')"

definition latent_dim :: nat where
  "latent_dim = 100"

text \<open>
  A network: its layers, the shape of one input, its weights and its
  \<^verbatim>\<open>trainable\<close> attribute (True when Keras creates it).
\<close>

record 'w network =
  layers :: "layer list"
  input_shape :: "nat list"
  weights :: 'w
  trainable :: bool

definition build_generator_layers :: "nat \<Rightarrow> nat \<Rightarrow> nat \<Rightarrow> nat \<Rightarrow> rat \<Rightarrow> layer list" where
  "build_generator_layers height width channels depth dropout =
     [Dense (4 * 4 * depth * 8),
      Reshape [4, 4, depth * 8],
      LeakyReLU,
      Dropout dropout,
      Conv2DTranspose (depth * 8) 4 2,
      LeakyReLU,
      Conv2DTranspose (depth * 4) 4 2,
      LeakyReLU,
      Conv2DTranspose (depth * 2) 4 2,
      LeakyReLU,
      Conv2DTranspose depth 4 2,
      LeakyReLU,
      Conv2D channels 7 1,
      Activation ''tanh'']"

text \<open>\<^verbatim>\<open>build_generator\<close>; \<open>w0\<close> are the initial weights Keras draws. Not compiled.\<close>

definition build_generator :: "nat \<Rightarrow> nat \<Rightarrow> nat \<Rightarrow> nat \<Rightarrow> rat \<Rightarrow> 'w \<Rightarrow> 'w network" where
  "build_generator height width channels depth dropout w0 =
     \<lparr>layers = build_generator_layers height width channels depth dropout,
      input_shape = [latent_dim], weights = w0, trainable = True\<rparr>"

text \<open>The shape of \<^verbatim>\<open>model.predict(x)\<close> for a batch \<open>x\<close> of \<open>b\<close> inputs.\<close>

definition predict_shape :: "'w network \<Rightarrow> nat \<Rightarrow> nat list option" where
  "predict_shape m b =
     (case model_output_shape (layers m) (input_shape m) of
        None \<Rightarrow> None
      | Some shape \<Rightarrow> Some (b # shape))"

subsection \<open>Compiled models\<close>

text \<open>
  The notebook relies on one rule of Keras: \<^verbatim>\<open>compile\<close> collects the weights that
  are trainable at that moment, and \<^verbatim>\<open>train_on_batch\<close> updates the collected
  weights, whatever the \<^verbatim>\<open>trainable\<close> attributes say later. A compiled model is
  what \<^verbatim>\<open>compile\<close> leaves behind: which networks' weights were collected, the
  learning rate and the decay given to the RMSprop optimizer (its
  \<^verbatim>\<open>clipvalue\<close> is 1.0 in both models) and the state of the optimizer. A decimal
  literal of the notebook is the double nearest to it.
\<close>

record 'o compiled =
  collects_generator :: bool
  collects_discriminator :: bool
  learning_rate :: rat
  decay :: rat
  optimizer :: 'o

text \<open>
  The objects the training loop works on. The GAN model holds the generator and the
  discriminator by reference: there is one copy of each network's weights, and
  NumPy's global generator of random numbers is \<open>rng\<close>.
\<close>

record ('w, 'o, 'r) session =
  generator :: "'w network"
  discriminator :: "'w network"
  discriminator_model :: "'o compiled"
  gan_model :: "'o compiled"
  rng :: 'r

definition build_discriminator_layers :: "nat \<Rightarrow> rat \<Rightarrow> layer list" where
  "build_discriminator_layers depth dropout =
     [Conv2D (depth * 1) 4 1,
      LeakyReLU,
      Conv2D (depth * 1) 4 2,
      LeakyReLU,
      Conv2D (depth * 1) 4 2,
      LeakyReLU,
      Conv2D (depth * 2) 4 2,
      LeakyReLU,
      Conv2D (depth * 4) 4 2,
      LeakyReLU,
      Conv2D (depth * 8) 4 2,
      LeakyReLU,
      Dropout dropout,
      Flatten,
      Dense 1]"

text \<open>
  \<^verbatim>\<open>build_discriminator\<close>: the network and its compiled model. \<open>w0\<close> and \<open>o0\<close>
  are the initial weights and the initial state of the optimizer.
\<close>

definition build_discriminator ::
  "nat \<Rightarrow> nat \<Rightarrow> nat \<Rightarrow> nat \<Rightarrow> rat \<Rightarrow> rat \<Rightarrow> rat \<Rightarrow> 'w \<Rightarrow> 'o
     \<Rightarrow> 'w network \<times> 'o compiled" where
  "build_discriminator height width channels depth lr dropout dec w0 o0 =
     (let model = \<lparr>layers = build_discriminator_layers depth dropout,
                   input_shape = [height, width, channels], weights = w0, trainable = True\<rparr>
      in (model,
          \<lparr>collects_generator = False, collects_discriminator = trainable model,
           learning_rate = lr, decay = dec, optimizer = o0\<rparr>))"

text \<open>
  \<^verbatim>\<open>build_gan\<close> assigns \<^verbatim>\<open>discriminator.trainable = False\<close> on the caller's
  discriminator and compiles the chain afterwards; it returns the discriminator as
  it has left it and the compiled GAN model.
\<close>

definition build_gan ::
  "nat \<Rightarrow> 'w network \<Rightarrow> 'w network \<Rightarrow> rat \<Rightarrow> rat \<Rightarrow> 'o \<Rightarrow> 'w network \<times> 'o compiled" where
  "build_gan latent generator_net discriminator_net lr dec o0 =
     (let discriminator_net = discriminator_net\<lparr>trainable := False\<rparr>
      in (discriminator_net,
          \<lparr>collects_generator = trainable generator_net,
           collects_discriminator = trainable discriminator_net,
           learning_rate = lr, decay = dec, optimizer = o0\<rparr>))"

text \<open>
  The cell that initializes the models:
  \<^verbatim>\<open>discriminator = build_discriminator(lr=lr_d); generator = build_generator();
  gan = build_gan(latent_dim, generator, discriminator, lr=lr_g)\<close>, with
  \<^verbatim>\<open>lr_d = 0.00002\<close>, \<^verbatim>\<open>lr_g = 0.0008\<close> and the defaults of the builders.
\<close>

definition initialize_models :: "'w \<Rightarrow> 'o \<Rightarrow> 'w \<Rightarrow> 'o \<Rightarrow> 'r \<Rightarrow> ('w, 'o, 'r) session" where
  "initialize_models wd od wg og r =
     (case build_discriminator 64 64 3 64 (fl (2 / 100000)) (fl (6 / 10))
             (fl (1 / 100000000)) wd od of
        (discriminator_net, dm) \<Rightarrow>
          (let generator_net = build_generator 64 64 3 64 (fl (3 / 10)) wg
           in case build_gan latent_dim generator_net discriminator_net (fl (8 / 10000))
                     (fl (1 / 100000000)) og of
                (discriminator_net, gm) \<Rightarrow>
                  \<lparr>generator = generator_net, discriminator = discriminator_net,
                   discriminator_model = dm, gan_model = gm, rng = r\<rparr>))"

subsection \<open>The numeric kernels\<close>

text \<open>A loss as Keras returns it: a double, which may be infinite or not a number.\<close>

datatype loss = Finite rat | PosInf | NegInf | NaN

text \<open>
  What NumPy and Keras compute, as parameters:
  \<^item> \<open>np_normal r n d\<close>: \<^verbatim>\<open>np.random.normal(size=(n, d))\<close>, \<open>n\<close> latent vectors;
  \<^item> \<open>np_randint r low high n\<close>: \<^verbatim>\<open>np.random.randint(low, high, n)\<close>;
  \<^item> \<open>np_random r n\<close>: \<^verbatim>\<open>np.random.random\<close> for \<open>n\<close> elements, each in \<open>[0, 1)\<close>;
  \<^item> \<open>predict w z\<close>: the generator's images for the latent vectors \<open>z\<close>;
  \<^item> \<open>fit_discriminator c w images labels\<close>: one RMSprop step of the compiled
    discriminator \<open>c\<close> on a labelled batch: new optimizer state, new weights, the
    loss;
  \<^item> \<open>fit_gan c wg wd z targets\<close>: one RMSprop step of the compiled chain \<open>c\<close>:
    new optimizer state, the weights the step gives the generator and the
    discriminator, the loss.
  Each draw returns the generator state it leaves. The kernels are total: they stand
  for calls on batches of the shapes that NumPy and Keras accept.
\<close>

record ('w, 'o, 'r, 'z, 'i) kernels =
  np_normal :: "'r \<Rightarrow> nat \<Rightarrow> nat \<Rightarrow> 'z list \<times> 'r"
  np_randint :: "'r \<Rightarrow> nat \<Rightarrow> nat \<Rightarrow> nat \<Rightarrow> nat list \<times> 'r"
  np_random :: "'r \<Rightarrow> nat \<Rightarrow> rat list \<times> 'r"
  predict :: "'w \<Rightarrow> 'z list \<Rightarrow> 'i list"
  fit_discriminator :: "'o compiled \<Rightarrow> 'w \<Rightarrow> 'i list \<Rightarrow> rat list \<Rightarrow> 'o \<times> 'w \<times> loss"
  fit_gan :: "'o compiled \<Rightarrow> 'w \<Rightarrow> 'w \<Rightarrow> 'z list \<Rightarrow> rat list \<Rightarrow> 'o \<times> 'w \<times> 'w \<times> loss"

text \<open>
  \<^verbatim>\<open>discriminator.train_on_batch(images, labels)\<close>: the step's weights are stored
  when the compiled discriminator collected them.
\<close>

definition discriminator_train_on_batch ::
  "('w, 'o, 'r, 'z, 'i) kernels \<Rightarrow> ('w, 'o, 'r) session \<Rightarrow> 'i list \<Rightarrow> rat list
     \<Rightarrow> ('w, 'o, 'r) session \<times> loss" where
  "discriminator_train_on_batch K s images labels =
     (let dm = discriminator_model s in
      case fit_discriminator K dm (weights (discriminator s)) images labels of
        (opt', wd', l) \<Rightarrow>
          (s\<lparr>discriminator :=
               (discriminator s)\<lparr>weights :=
                 if collects_discriminator dm then wd' else weights (discriminator s)\<rparr>,
             discriminator_model := dm\<lparr>optimizer := opt'\<rparr>\<rparr>, l))"

text \<open>\<^verbatim>\<open>gan.train_on_batch(latent_vectors, targets)\<close>, likewise for the chain.\<close>

definition gan_train_on_batch ::
  "('w, 'o, 'r, 'z, 'i) kernels \<Rightarrow> ('w, 'o, 'r) session \<Rightarrow> 'z list \<Rightarrow> rat list
     \<Rightarrow> ('w, 'o, 'r) session \<times> loss" where
  "gan_train_on_batch K s latent_vectors targets =
     (let gm = gan_model s in
      case fit_gan K gm (weights (generator s)) (weights (discriminator s)) latent_vectors
             targets of
        (opt', wg', wd', l) \<Rightarrow>
          (s\<lparr>generator :=
               (generator s)\<lparr>weights :=
                 if collects_generator gm then wg' else weights (generator s)\<rparr>,
             discriminator :=
               (discriminator s)\<lparr>weights :=
                 if collects_discriminator gm then wd' else weights (discriminator s)\<rparr>,
             gan_model := gm\<lparr>optimizer := opt'\<rparr>\<rparr>, l))"

subsection \<open>Saving samples\<close>

text \<open>What the loop does that can be observed, in the order in which it does it.\<close>

datatype 'i event =
    GeneratorPredict nat
  | DiscriminatorTrainOnBatch nat
  | GanTrainOnBatch nat
  | PrintStep nat
  | PrintDiscriminatorLoss loss
  | PrintAdversarialLoss loss
  | SaveImage string 'i

fun str :: "nat \<Rightarrow> string" where
  "str n = (if n < 10 then [''0123456789'' ! n]
            else str (n div 10) @ [''0123456789'' ! (n mod 10)])"

definition path_join :: "string \<Rightarrow> string \<Rightarrow> string" where
  "path_join dir name =
     (if dir = [] then name
      else if last dir = CHR ''/'' then dir @ name
      else dir @ ''/'' @ name)"

text \<open>
  \<^verbatim>\<open>save_data\<close> writes the first generated and the first real image; indexing an
  empty batch raises IndexError. It returns the error, if any, and the files written.
\<close>

definition save_data :: "nat \<Rightarrow> 'i list \<Rightarrow> 'i list \<Rightarrow> string \<Rightarrow> error option \<times> 'i event list" where
  "save_data step generated_images real_images save_dir =
     (case generated_images of
        [] \<Rightarrow> (Some IndexError, [])
      | g # gs \<Rightarrow>
          (let saved = [SaveImage (path_join save_dir (''generated_image'' @ str step @ ''.png'')) g]
           in case real_images of
                [] \<Rightarrow> (Some IndexError, saved)
              | r # rs \<Rightarrow>
                  (None, saved @
                     [SaveImage (path_join save_dir (''real_image'' @ str step @ ''.png'')) r])))"

subsection \<open>The training loop\<close>

text \<open>
  The labels of a combined batch: \<^verbatim>\<open>np.ones((batch_size, 1))\<close> for the generated
  images, then \<^verbatim>\<open>np.zeros((batch_size, 1))\<close> for the real ones.
\<close>

definition assemble_labels :: "nat \<Rightarrow> rat list" where
  "assemble_labels batch_size = replicate batch_size 1 @ replicate batch_size 0"

text \<open>The noise term of one label: \<^verbatim>\<open>0.05 * u\<close> for the draw \<open>u\<close>.\<close>

definition label_noise :: "rat \<Rightarrow> rat" where
  "label_noise u = fmul (fl (1 / 20)) u"

text \<open>\<^verbatim>\<open>labels += 0.05 * np.random.random(labels.shape)\<close>.\<close>

definition add_label_noise :: "rat list \<Rightarrow> rat list \<Rightarrow> rat list" where
  "add_label_noise labels draws = map (\<lambda>(l, u). fadd l (label_noise u)) (zip labels draws)"

text \<open>\<^verbatim>\<open>x_train[real_image_index]\<close>: an index out of range raises IndexError.\<close>

fun take_images :: "'i list \<Rightarrow> nat list \<Rightarrow> 'i list option" where
  "take_images x_train [] = Some []"
| "take_images x_train (i # idx) =
     (if i < length x_train
      then (case take_images x_train idx of None \<Rightarrow> None | Some xs \<Rightarrow> Some (x_train ! i # xs))
      else None)"

text \<open>
  One pass of the body of the loop of \<^verbatim>\<open>train_gan\<close>, at \<open>step\<close>: the exception
  that ends it, if any, the session as the pass leaves it and the events of the
  pass. A negative batch size and an empty training set raise ValueError in the
  draws; with batch size 0 Keras has predicted nothing, and combining the batches
  raises ValueError; \<^verbatim>\<open>step % save_intervals\<close> raises ZeroDivisionError at
  interval 0. Each update has its event where the loop calls it.
\<close>

definition train_step ::
  "('w, 'o, 'r, 'z, 'i) kernels \<Rightarrow> 'i list \<Rightarrow> string option \<Rightarrow> int \<Rightarrow> int \<Rightarrow> nat
     \<Rightarrow> ('w, 'o, 'r) session \<Rightarrow> error option \<times> ('w, 'o, 'r) session \<times> 'i event list" where
  "train_step K x_train save_dir batch_size save_intervals step s =
     (if batch_size < 0 then (Some ValueError, s, [])
      else
        case np_normal K (rng s) (nat batch_size) latent_dim of
          (random_latent_vectors, r1) \<Rightarrow>
        let generated_images = predict K (weights (generator s)) random_latent_vectors;
            ev1 = [GeneratorPredict step]
        in
        if length x_train = 0 then (Some ValueError, s\<lparr>rng := r1\<rparr>, ev1)
        else
        case np_randint K r1 0 (length x_train) (nat batch_size) of
          (real_image_index, r2) \<Rightarrow>
        case take_images x_train real_image_index of
          None \<Rightarrow> (Some IndexError, s\<lparr>rng := r2\<rparr>, ev1)
        | Some real_images \<Rightarrow>
        if batch_size = 0 then (Some ValueError, s\<lparr>rng := r2\<rparr>, ev1)
        else
        let combined_images = generated_images @ real_images;
            labels = assemble_labels (nat batch_size)
        in
        case np_random K r2 (length labels) of
          (draws, r3) \<Rightarrow>
        let labels = add_label_noise labels draws in
        case discriminator_train_on_batch K (s\<lparr>rng := r3\<rparr>) combined_images labels of
          (s1, d_loss) \<Rightarrow>
        let ev2 = ev1 @ [DiscriminatorTrainOnBatch step] in
        case np_normal K (rng s1) (nat batch_size) latent_dim of
          (random_latent_vectors, r4) \<Rightarrow>
        let misleading_targets = replicate (nat batch_size) 0 in
        case gan_train_on_batch K (s1\<lparr>rng := r4\<rparr>) random_latent_vectors misleading_targets of
          (s2, a_loss) \<Rightarrow>
        let ev3 = ev2 @ [GanTrainOnBatch step] in
        if save_intervals = 0 then (Some ZeroDivisionError, s2, ev3)
        else if int step mod save_intervals = 0 then
          (let ev4 = ev3 @ [PrintStep step, PrintDiscriminatorLoss d_loss,
                            PrintAdversarialLoss a_loss]
           in case save_dir of
                None \<Rightarrow> (None, s2, ev4)
              | Some dir \<Rightarrow>
                  (case save_data step generated_images real_images dir of
                     (err, saved) \<Rightarrow> (err, s2, ev4 @ saved)))
        else (None, s2, ev3))"

text \<open>\<^verbatim>\<open>for step in range(iterations)\<close>: an exception ends the loop.\<close>

fun train_loop ::
  "(nat \<Rightarrow> 's \<Rightarrow> error option \<times> 's \<times> 'e list) \<Rightarrow> nat list \<Rightarrow> 's
     \<Rightarrow> error option \<times> 's \<times> 'e list" where
  "train_loop body [] s = (None, s, [])"
| "train_loop body (step # steps) s =
     (case body step s of
        (Some e, s', evs) \<Rightarrow> (Some e, s', evs)
      | (None, s', evs) \<Rightarrow>
          (case train_loop body steps s' of (err, s'', evs') \<Rightarrow> (err, s'', evs @ evs')))"

text \<open>
  \<^verbatim>\<open>train_gan(discriminator, generator, gan, x_train, iterations, save_dir,
  batch_size, save_intervals, save_weights)\<close>; the three models are the session's.
\<close>

definition train_gan ::
  "('w, 'o, 'r, 'z, 'i) kernels \<Rightarrow> ('w, 'o, 'r) session \<Rightarrow> 'i list \<Rightarrow> int \<Rightarrow> string option
     \<Rightarrow> int \<Rightarrow> int \<Rightarrow> bool \<Rightarrow> error option \<times> ('w, 'o, 'r) session \<times> 'i event list" where
  "train_gan K s x_train iterations save_dir batch_size save_intervals save_weights =
     train_loop (train_step K x_train save_dir batch_size save_intervals)
       [0..<nat iterations] s"

section \<open>Notions of the properties\<close>

text \<open>The shape of an array, as NumPy's \<^verbatim>\<open>shape\<close>.\<close>

definition shape :: "'a array3 \<Rightarrow> nat \<times> nat \<times> nat" where
  "shape a = (nrows a, ncols a, nchans a)"

text \<open>A file whose array, if it has three dimensions, has 8 bit depth.\<close>

definition eight_bit :: "ndarray option \<Rightarrow> bool" where
  "eight_bit r = (case r of Some (Array3 (Image16 img)) \<Rightarrow> False | _ \<Rightarrow> True)"

text \<open>The two weight updates of a pass of the loop, and the updates among some events.\<close>

fun is_update :: "'i event \<Rightarrow> bool" where
  "is_update (DiscriminatorTrainOnBatch k) = True"
| "is_update (GanTrainOnBatch k) = True"
| "is_update e = False"

definition weight_updates :: "'i event list \<Rightarrow> 'i event list" where
  "weight_updates evs = filter is_update evs"

definition update_pair :: "nat \<Rightarrow> 'i event list" where
  "update_pair step = [DiscriminatorTrainOnBatch step, GanTrainOnBatch step]"

text \<open>
  The two updates of a pass in their order, by what they compute: from the session \<open>t\<close>
  the discriminator's step runs on the labelled batch, its weights are stored where
  the compiled discriminator collected them, and the chain's step then runs on the
  discriminator's weights as this has left them; \<open>t'\<close> holds what the chain's step
  stores, and the optimizer states of the two steps.
\<close>

definition updates_in_order ::
  "('w, 'o, 'r, 'z, 'i) kernels \<Rightarrow> ('w, 'o, 'r) session \<Rightarrow> 'i list \<Rightarrow> rat list \<Rightarrow> 'z list
     \<Rightarrow> rat list \<Rightarrow> ('w, 'o, 'r) session \<Rightarrow> bool" where
  "updates_in_order K t images labels z targets t' =
     (case fit_discriminator K (discriminator_model t) (weights (discriminator t)) images labels of
        (opt1, wd1, d_loss) \<Rightarrow>
          (let wd = (if collects_discriminator (discriminator_model t) then wd1
                     else weights (discriminator t))
           in case fit_gan K (gan_model t) (weights (generator t)) wd z targets of
                (opt2, wg2, wd2, a_loss) \<Rightarrow>
                  weights (discriminator t') =
                    (if collects_discriminator (gan_model t) then wd2 else wd) \<and>
                  weights (generator t') =
                    (if collects_generator (gan_model t) then wg2 else weights (generator t)) \<and>
                  optimizer (discriminator_model t') = opt1 \<and>
                  optimizer (gan_model t') = opt2))"

text \<open>
  The kernels \<open>K\<close> with every loss they return replaced by \<open>f\<close> of it, and the events
  with every printed loss replaced likewise.
\<close>

definition replace_losses ::
  "(loss \<Rightarrow> loss) \<Rightarrow> ('w, 'o, 'r, 'z, 'i) kernels \<Rightarrow> ('w, 'o, 'r, 'z, 'i) kernels" where
  "replace_losses f K =
     K\<lparr>fit_discriminator :=
         (\<lambda>c w images labels.
            case fit_discriminator K c w images labels of
              (opt', w', l) \<Rightarrow> (opt', w', f l)),
       fit_gan :=
         (\<lambda>c wg wd z targets.
            case fit_gan K c wg wd z targets of
              (opt', wg', wd', l) \<Rightarrow> (opt', wg', wd', f l))\<rparr>"

fun relabel :: "(loss \<Rightarrow> loss) \<Rightarrow> 'i event \<Rightarrow> 'i event" where
  "relabel f (PrintDiscriminatorLoss l) = PrintDiscriminatorLoss (f l)"
| "relabel f (PrintAdversarialLoss l) = PrintAdversarialLoss (f l)"
| "relabel f e = e"

text \<open>A loss is finite when it is neither infinite nor not a number.\<close>

fun isfinite :: "loss \<Rightarrow> bool" where
  "isfinite (Finite x) = True"
| "isfinite PosInf = False"
| "isfinite NegInf = False"
| "isfinite NaN = False"

text \<open>
  The \<^verbatim>\<open>trainable\<close> attributes and what the two compiled models collected; the
  learning rate and decay of the two optimizers.
\<close>

definition flags :: "('w, 'o, 'r) session \<Rightarrow> bool list" where
  "flags s =
     [trainable (generator s), trainable (discriminator s),
      collects_generator (discriminator_model s), collects_discriminator (discriminator_model s),
      collects_generator (gan_model s), collects_discriminator (gan_model s)]"

definition learning_rates :: "('w, 'o, 'r) session \<Rightarrow> (rat \<times> rat) \<times> (rat \<times> rat)" where
  "learning_rates s =
     ((learning_rate (discriminator_model s), decay (discriminator_model s)),
      (learning_rate (gan_model s), decay (gan_model s)))"

text \<open>
  A finite distribution: values with their probabilities, and the expectation of a
  function of the value. \<open>unit_draws n\<close> are the results of
  \<^verbatim>\<open>np.random.random\<close> for \<open>n\<close> elements.
\<close>

definition distribution :: "(rat \<times> 'a) list \<Rightarrow> bool" where
  "distribution D \<longleftrightarrow> list_all (\<lambda>(p, x). 0 \<le> p) D \<and> sum_list (map fst D) = 1"

definition expectation :: "(rat \<times> 'a) list \<Rightarrow> ('a \<Rightarrow> rat) \<Rightarrow> rat" where
  "expectation D f = sum_list (map (\<lambda>(p, x). p * f x) D)"

definition unit_draws :: "nat \<Rightarrow> rat list \<Rightarrow> bool" where
  "unit_draws n draws \<longleftrightarrow> length draws = n \<and> list_all (\<lambda>u. 0 \<le> u \<and> u < 1) draws"

subsection \<open>Inputs for the examples\<close>

text \<open>An image of one pixel with the given channels, and nearest neighbour interpolation.\<close>

definition pixel_image :: "'a list \<Rightarrow> 'a array3" where
  "pixel_image cs = \<lparr>nrows = 1, ncols = 1, nchans = length cs, px = (\<lambda>i j k. cs ! k)\<rparr>"

definition nearest :: "'a interpolation" where
  "nearest img h w = (\<lambda>i j k. px img (i * nrows img div h) (j * ncols img div w) k)"

text \<open>
  A directory of two images, a transparent BGRA pixel and a BGR pixel; one where a
  file that cannot be decoded stands between them; and one of a single BGR pixel of
  16 bit depth.
\<close>

definition emoji_files :: "string \<Rightarrow> string list" where
  "emoji_files image_dir = [''a.png'', ''b.png'']"

definition broken_files :: "string \<Rightarrow> string list" where
  "broken_files image_dir = [''a.png'', ''empty.png'', ''b.png'']"

definition deep_files :: "string \<Rightarrow> string list" where
  "deep_files image_dir = [''deep.png'']"

definition emoji_imread :: "string \<Rightarrow> ndarray option" where
  "emoji_imread image_path =
     (if image_path = ''a.png'' then Some (Array3 (Image8 (pixel_image [10, 20, 30, 0])))
      else if image_path = ''b.png'' then Some (Array3 (Image8 (pixel_image [10, 20, 30])))
      else if image_path = ''deep.png'' then Some (Array3 (Image16 (pixel_image [510, 510, 510])))
      else None)"

text \<open>
  Kernels whose weights count the optimizer steps; both losses are 1 at the first
  step of a network and not a number from then on.
\<close>

definition counting_kernels :: "(nat, unit, unit, unit, unit) kernels" where
  "counting_kernels =
     \<lparr>np_normal = (\<lambda>r n d. (replicate n (), r)),
      np_randint = (\<lambda>r low high n. (replicate n low, r)),
      np_random = (\<lambda>r n. (replicate n (1 / 2), r)),
      predict = (\<lambda>w z. map (\<lambda>v. ()) z),
      fit_discriminator =
        (\<lambda>c w images labels. (optimizer c, Suc w, if w = 0 then Finite 1 else NaN)),
      fit_gan =
        (\<lambda>c wg wd z targets.
           (optimizer c, Suc wg, Suc wd, if wg = 0 then Finite 1 else NaN))\<rparr>"

text \<open>
  Kernels that show the order of the updates: the discriminator's step counts, and the
  chain's step gives the generator the discriminator's weights that it was run on.
\<close>

definition recording_kernels :: "(nat, unit, unit, unit, unit) kernels" where
  "recording_kernels =
     \<lparr>np_normal = (\<lambda>r n d. (replicate n (), r)),
      np_randint = (\<lambda>r low high n. (replicate n low, r)),
      np_random = (\<lambda>r n. (replicate n (1 / 2), r)),
      predict = (\<lambda>w z. map (\<lambda>v. ()) z),
      fit_discriminator = (\<lambda>c w images labels. (optimizer c, Suc w, Finite 0)),
      fit_gan = (\<lambda>c wg wd z targets. (optimizer c, wd, wd, Finite 0))\<rparr>"

text \<open>The session of the notebook's initialization, for these kernels.\<close>

definition counting_session :: "(nat, unit, unit) session" where
  "counting_session = initialize_models 0 () 0 () ()"

text \<open>Two equally likely outcomes of the two draws for a batch of size 1.\<close>

definition two_draws :: "(rat \<times> rat list) list" where
  "two_draws = [(1 / 2, [0, 1 / 2]), (1 / 2, [1 / 2, 0])]"

section \<open>Properties\<close>

subsection \<open>Rounding\<close>

lemma pow2_powi: "pow2 k = 2 powi k"
  by (simp add: pow2_def power_int_def power_inverse inverse_eq_divide power_one_over)

lemma pow2_pos: "0 < pow2 k"
  by (simp add: pow2_def)

lemma pow2_add: "pow2 (a + b) = pow2 a * pow2 b"
  by (simp add: pow2_powi power_int_add)

lemma pow2_diff: "pow2 (a - b) = pow2 a / pow2 b"
  by (simp add: pow2_powi power_int_diff)

lemma pow2_nat: "0 \<le> k \<Longrightarrow> pow2 k = of_int (2 ^ nat k)"
  by (simp add: pow2_def)

lemma pow2_succ: "pow2 (k + 1) = 2 * pow2 k"
proof -
  have "pow2 1 = 2" by (simp add: pow2_def)
  then show ?thesis by (simp add: pow2_add)
qed

lemma pow2_less_succ: "pow2 k < pow2 (k + 1)"
  using pow2_pos [of k] by (simp add: pow2_succ)

lemma pow2_mono: "a \<le> b \<Longrightarrow> pow2 a \<le> pow2 b"
  unfolding pow2_powi by (rule power_int_increasing) simp_all

lemma pow2_less_cancel: "pow2 a < pow2 b \<Longrightarrow> a < b"
  using pow2_mono [of b a] by (cases "a < b") simp_all

lemma expo_bounds:
  assumes "0 < x"
  shows "pow2 (expo x) \<le> x \<and> x < pow2 (expo x + 1)"
proof -
  obtain p q where pq: "quotient_of x = (p, q)" by (cases "quotient_of x")
  then have q: "0 < q" and x: "x = of_int p / of_int q"
    by (simp_all add: quotient_of_denom_pos quotient_of_div)
  from assms q x have p: "0 < p" by (simp add: zero_less_divide_iff)
  define k where "k = bitlen p - bitlen q"
  have bp: "2 ^ nat (bitlen p - 1) \<le> p" "p < 2 ^ nat (bitlen p)" using bitlen_bounds [OF p] by auto
  have bq: "2 ^ nat (bitlen q - 1) \<le> q" "q < 2 ^ nat (bitlen q)" using bitlen_bounds [OF q] by auto
  have lp: "1 \<le> bitlen p" using p by (simp add: bitlen_alt_def)
  have lq: "1 \<le> bitlen q" using q by (simp add: bitlen_alt_def)
  have P1: "pow2 (bitlen p - 1) \<le> of_int p" using bp(1) lp
    by (simp add: pow2_nat)
  have P2: "(of_int p :: rat) < pow2 (bitlen p)" using bp(2) lp
    by (simp add: pow2_nat)
  have Q1: "pow2 (bitlen q - 1) \<le> of_int q" using bq(1) lq
    by (simp add: pow2_nat)
  have Q2: "(of_int q :: rat) < pow2 (bitlen q)" using bq(2) lq
    by (simp add: pow2_nat)
  have up: "x < pow2 (k + 1)"
  proof -
    have "of_int p < pow2 (k + 1) * pow2 (bitlen q - 1)"
      using P2 by (simp add: k_def flip: pow2_add)
    also have "\<dots> \<le> pow2 (k + 1) * of_int q"
      using Q1 pow2_pos [of "k + 1"] by simp
    finally show ?thesis using q by (simp add: x pos_divide_less_eq)
  qed
  have lo: "pow2 (k - 1) \<le> x"
  proof -
    have "pow2 (k - 1) * of_int q \<le> pow2 (k - 1) * pow2 (bitlen q)"
      using Q2 pow2_pos [of "k - 1"] by simp
    also have "\<dots> = pow2 (bitlen p - 1)" by (simp add: k_def flip: pow2_add)
    also have "\<dots> \<le> of_int p" by (rule P1)
    finally show ?thesis using q by (simp add: x pos_le_divide_eq)
  qed
  have e: "expo x = (if pow2 k \<le> x then k else k - 1)"
    by (simp add: expo_def pq k_def Let_def)
  show ?thesis
  proof (cases "pow2 k \<le> x")
    case True
    with e up show ?thesis by simp
  next
    case False
    with e lo show ?thesis by simp
  qed
qed

lemma expo_unique:
  assumes "pow2 e \<le> x" "x < pow2 (e + 1)"
  shows "expo x = e"
proof -
  have x: "0 < x" using assms(1) pow2_pos [of e] by simp
  note b = expo_bounds [OF x]
  have "pow2 e < pow2 (expo x + 1)" using assms(1) b by simp
  then have 1: "e < expo x + 1" by (rule pow2_less_cancel)
  have "pow2 (expo x) < pow2 (e + 1)" using assms(2) b by simp
  then have 2: "expo x < e + 1" by (rule pow2_less_cancel)
  from 1 2 show ?thesis by simp
qed

lemma round_half_even_le: "r \<le> of_int m \<Longrightarrow> round_half_even r \<le> m"
  unfolding round_half_even_def Let_def
  by (auto simp: floor_le_iff le_floor_iff)

lemma round_half_even_ge:
  assumes "of_int m \<le> r"
  shows "m \<le> round_half_even r"
proof -
  have "m \<le> \<lfloor>r\<rfloor>" using assms by (simp add: le_floor_iff)
  then show ?thesis by (simp add: round_half_even_def Let_def)
qed

lemma round_half_even_mono:
  assumes "r \<le> r'"
  shows "round_half_even r \<le> round_half_even r'"
proof (cases "\<lfloor>r\<rfloor> = \<lfloor>r'\<rfloor>")
  case True
  with assms show ?thesis by (auto simp: round_half_even_def Let_def)
next
  case False
  with assms have lt: "\<lfloor>r\<rfloor> < \<lfloor>r'\<rfloor>" using floor_mono [of r r'] by simp
  have "round_half_even r \<le> \<lfloor>r\<rfloor> + 1" by (simp add: round_half_even_def Let_def)
  also have "\<dots> \<le> \<lfloor>r'\<rfloor>" using lt by simp
  also have "\<dots> \<le> round_half_even r'" by (simp add: round_half_even_def Let_def)
  finally show ?thesis .
qed

lemma fl_pos_lower:
  assumes "0 < x"
  shows "pow2 (expo x) \<le> fl_pos x"
proof -
  let ?u = "pow2 (expo x - 52)"
  have u: "0 < ?u" by (rule pow2_pos)
  have "pow2 (expo x) = pow2 52 * ?u" by (simp flip: pow2_add)
  also have "pow2 52 = of_int (2 ^ 52)" by (simp add: pow2_def)
  finally have e: "pow2 (expo x) = of_int (2 ^ 52) * ?u" .
  have "of_int (2 ^ 52) * ?u \<le> x" using expo_bounds [OF assms] e by simp
  then have "of_int (2 ^ 52) \<le> x / ?u" using u by (simp add: pos_le_divide_eq)
  then have "2 ^ 52 \<le> round_half_even (x / ?u)" by (rule round_half_even_ge)
  then have "(of_int (2 ^ 52) :: rat) \<le> of_int (round_half_even (x / ?u))"
    by (simp only: of_int_le_iff)
  then have "of_int (2 ^ 52) * ?u \<le> of_int (round_half_even (x / ?u)) * ?u"
    using u by (simp only: mult_le_cancel_right_pos)
  then show ?thesis by (simp only: e fl_pos_def)
qed

lemma fl_pos_upper:
  assumes "0 < x" "x \<le> pow2 k"
  shows "fl_pos x \<le> pow2 k"
proof -
  let ?u = "pow2 (expo x - 52)"
  have u: "0 < ?u" by (rule pow2_pos)
  have "pow2 (expo x) < pow2 (k + 1)"
    using expo_bounds [OF assms(1)] assms(2) pow2_less_succ [of k] by simp
  then have ek: "expo x \<le> k" using pow2_less_cancel by fastforce
  have "pow2 k = pow2 (k - expo x + 52) * ?u" by (simp flip: pow2_add)
  also have "pow2 (k - expo x + 52) = of_int (2 ^ nat (k - expo x + 52))"
    using ek by (simp add: pow2_nat)
  finally have e: "pow2 k = of_int (2 ^ nat (k - expo x + 52)) * ?u" .
  have "x / ?u \<le> of_int (2 ^ nat (k - expo x + 52))"
    using assms(2) u e by (simp add: pos_divide_le_eq)
  then have "round_half_even (x / ?u) \<le> 2 ^ nat (k - expo x + 52)"
    by (rule round_half_even_le)
  then have "(of_int (round_half_even (x / ?u)) :: rat) \<le> of_int (2 ^ nat (k - expo x + 52))"
    by (simp only: of_int_le_iff)
  then have "of_int (round_half_even (x / ?u)) * ?u \<le> of_int (2 ^ nat (k - expo x + 52)) * ?u"
    using u by (simp only: mult_le_cancel_right_pos)
  then show ?thesis by (simp only: e fl_pos_def)
qed

lemma fl_pos_positive: "0 < x \<Longrightarrow> 0 < fl_pos x"
  using fl_pos_lower [of x] pow2_pos [of "expo x"] by simp

lemma fl_pos_mono:
  assumes "0 < x" "x \<le> y"
  shows "fl_pos x \<le> fl_pos y"
proof -
  have y: "0 < y" using assms by simp
  note bx = expo_bounds [OF assms(1)] and bnd_y = expo_bounds [OF y]
  have "pow2 (expo x) < pow2 (expo y + 1)" using bx bnd_y assms(2) by simp
  then have le: "expo x \<le> expo y" using pow2_less_cancel by fastforce
  show ?thesis
  proof (cases "expo x = expo y")
    case True
    let ?u = "pow2 (expo y - 52)"
    have u: "0 < ?u" by (rule pow2_pos)
    have "x / ?u \<le> y / ?u" using assms(2) u by (simp add: divide_right_mono)
    then have "round_half_even (x / ?u) \<le> round_half_even (y / ?u)"
      by (rule round_half_even_mono)
    then have "(of_int (round_half_even (x / ?u)) :: rat) \<le> of_int (round_half_even (y / ?u))"
      by (simp only: of_int_le_iff)
    then have "of_int (round_half_even (x / ?u)) * ?u \<le> of_int (round_half_even (y / ?u)) * ?u"
      using u by (simp only: mult_le_cancel_right_pos)
    then show ?thesis by (simp only: fl_pos_def True)
  next
    case False
    with le have "expo x + 1 \<le> expo y" by simp
    then have p: "pow2 (expo x + 1) \<le> pow2 (expo y)" by (rule pow2_mono)
    have "x \<le> pow2 (expo x + 1)" using bx by simp
    then have "fl_pos x \<le> pow2 (expo x + 1)" by (rule fl_pos_upper [OF assms(1)])
    also note p
    also have "pow2 (expo y) \<le> fl_pos y" by (rule fl_pos_lower [OF y])
    finally show ?thesis .
  qed
qed

lemma fl_mono: "x \<le> y \<Longrightarrow> fl x \<le> fl y"
  using fl_pos_mono [of x y] fl_pos_mono [of "- y" "- x"] fl_pos_positive [of y]
    fl_pos_positive [of "- x"]
  by (auto simp: fl_def not_less less_le [of 0])

lemma fl_nonneg: "0 \<le> x \<Longrightarrow> 0 \<le> fl x"
  using fl_mono [of 0 x] by (simp add: fl_def)

lemma fl_le_pow2:
  assumes "x \<le> pow2 k"
  shows "fl x \<le> pow2 k"
proof (cases "0 < x")
  case True
  then show ?thesis using fl_pos_upper [OF True assms] by (simp add: fl_def)
next
  case False
  then have "fl x \<le> 0" using fl_pos_positive [of "- x"] by (cases "x = 0") (auto simp: fl_def)
  then show ?thesis using pow2_pos [of k] by simp
qed

lemma fl_ge_pow2:
  assumes "pow2 k \<le> x"
  shows "pow2 k \<le> fl x"
proof -
  have x: "0 < x" using assms pow2_pos [of k] by simp
  have "pow2 k < pow2 (expo x + 1)" using assms expo_bounds [OF x] by simp
  then have "k \<le> expo x" using pow2_less_cancel by fastforce
  then have "pow2 k \<le> pow2 (expo x)" by (rule pow2_mono)
  also have "\<dots> \<le> fl_pos x" by (rule fl_pos_lower [OF x])
  finally show ?thesis using x by (simp add: fl_def)
qed

lemma fl_eval:
  assumes "pow2 e \<le> x" "x < pow2 (e + 1)" "round_half_even (x / pow2 (e - 52)) = n"
  shows "fl x = of_int n * pow2 (e - 52)"
proof -
  have x: "0 < x" using assms(1) pow2_pos [of e] by simp
  have "expo x = e" using assms(1,2) by (rule expo_unique)
  with x assms(3) show ?thesis by (simp add: fl_def fl_pos_def)
qed

lemma floor_rat_numeral: "\<lfloor>(numeral a :: rat) / numeral b\<rfloor> = numeral a div numeral b"
  using floor_divide_of_int_eq [of "numeral a" "numeral b", where ?'a = rat] by simp

lemmas fl_eval_simps = pow2_def round_half_even_def Let_def floor_rat_numeral

lemma fl_zero: "fl 0 = 0"
  by (simp add: fl_def)

lemma fl_one: "fl 1 = 1"
  using fl_le_pow2 [of 1 0] fl_ge_pow2 [of 0 1] by (simp add: pow2_def)

lemma inv255: "fdiv 1 255 = 282578800148737 / 72057594037927936"
  unfolding fdiv_def
  by (rule fl_eval [where e = "- 8" and n = 4521260802379792, THEN trans])
    (simp_all add: fl_eval_simps)

lemma bg33_scaled:
  "fmul 33 (282578800148737 / 72057594037927936) = 291409387653385 / 2251799813685248"
  unfolding fmul_def
  by (rule fl_eval [where e = "- 3" and n = 4662550202454160, THEN trans])
    (simp_all add: fl_eval_simps)

lemma bg33_scaled_exact:
  "fl (291409387653385 / 2251799813685248) = 291409387653385 / 2251799813685248"
  by (rule fl_eval [where e = "- 3" and n = 4662550202454160, THEN trans])
    (simp_all add: fl_eval_simps)

lemma bg33_weighted:
  "fmul (291409387653385 / 2251799813685248) 255 = 4644337115725823 / 140737488355328"
  unfolding fmul_def
  by (rule fl_eval [where e = 5 and n = 4644337115725823, THEN trans])
    (simp_all add: fl_eval_simps)

lemma bg33_weighted_exact:
  "fl (4644337115725823 / 140737488355328) = 4644337115725823 / 140737488355328"
  by (rule fl_eval [where e = 5 and n = 4644337115725823, THEN trans])
    (simp_all add: fl_eval_simps)

lemma white_scaled: "fmul 255 (282578800148737 / 72057594037927936) = 1"
  unfolding fmul_def
  by (rule fl_eval [where e = "- 1" and n = 9007199254740992, THEN trans])
    (simp_all add: fl_eval_simps)

lemma fl_255: "fl 255 = 255"
  by (rule fl_eval [where e = 7 and n = 8972014882652160, THEN trans])
    (simp_all add: fl_eval_simps)

lemma fl_33: "fl 33 = 33"
  by (rule fl_eval [where e = 5 and n = 4644337115725824, THEN trans])
    (simp_all add: fl_eval_simps)

lemma fl_unit_interval: "0 \<le> x \<Longrightarrow> x \<le> 1 \<Longrightarrow> 0 \<le> fl x \<and> fl x \<le> 1"
  using fl_nonneg [of x] fl_le_pow2 [of x 0] by (simp add: pow2_def)

subsection \<open>The image loader\<close>

lemma float_of_uint8_bounds:
  fixes v :: uint8
  shows "0 \<le> float_of_word v \<and> float_of_word v \<le> 255"
proof -
  have "unat v < 256" using unsigned_less [of v] by simp
  then have "unat v \<le> 255" by simp
  then have "(of_nat (unat v) :: rat) \<le> of_nat 255" by (simp only: of_nat_le_iff)
  then have "(of_nat (unat v) :: rat) \<le> 255" by simp
  moreover have "0 \<le> (of_nat (unat v) :: rat)" by (rule of_nat_0_le_iff)
  ultimately show ?thesis unfolding float_of_word_def by (rule conjI [rotated])
qed

lemma divide_by_255_range:
  fixes img :: "uint8 array3"
  shows "0 \<le> px (divide_by_255 img) i j k \<and> px (divide_by_255 img) i j k \<le> 1"
  using float_of_uint8_bounds [of "px img i j k"]
  by (simp add: divide_by_255_def fdiv_def fl_unit_interval)

lemma shape_divide_by_255: "shape (divide_by_255 img) = shape img"
  by (simp add: shape_def divide_by_255_def)

lemma convert_and_resize_shape:
  "convert_and_resize interp height width img = Inr img' \<Longrightarrow> shape img' = (width, height, 3)"
  by (auto simp: convert_and_resize_def cv2_cvtColor_BGR2RGB_def cv2_resize_def shape_def
      split: sum.splits if_splits)

lemma load_image_shape:
  assumes "load_image imread interp8 interp16 height width p = Inr img"
  shows "shape (scale_image img) = (width, height, 3)"
  using assms
  by (auto simp: load_image_def shape_divide_by_255 map_sum_def
      dest: convert_and_resize_shape
      split: option.splits ndarray.splits image.splits sum.splits if_splits)

lemma load_image_range:
  assumes "load_image imread interp8 interp16 height width p = Inr img"
    and "eight_bit (imread p)"
  shows "0 \<le> px (scale_image img) i j k \<and> px (scale_image img) i j k \<le> 1"
  using assms
  by (auto simp: load_image_def eight_bit_def divide_by_255_range map_sum_def
      split: option.splits ndarray.splits image.splits sum.splits if_splits)

lemma load_loop_all:
  assumes "load_loop body paths acc = Inr images"
    and "\<And>img. img \<in> set acc \<Longrightarrow> P img"
    and "\<And>p img. p \<in> set paths \<Longrightarrow> body p = Inr img \<Longrightarrow> P img"
  shows "\<forall>img \<in> set images. P img"
  using assms
proof (induction paths arbitrary: acc)
  case Nil
  then show ?case by simp
next
  case (Cons p ps)
  show ?case
  proof (cases "body p")
    case (Inl e)
    with Cons.prems(1) show ?thesis by simp
  next
    case (Inr img)
    with Cons.prems(1) have "load_loop body ps (acc @ [img]) = Inr images" by simp
    moreover have "\<And>a. a \<in> set (acc @ [img]) \<Longrightarrow> P a"
      using Cons.prems(2) Cons.prems(3) [OF _ Inr] by auto
    moreover have "\<And>q a. q \<in> set ps \<Longrightarrow> body q = Inr a \<Longrightarrow> P a"
      using Cons.prems(3) by (meson list.set_intros(2))
    ultimately show ?thesis by (rule Cons.IH)
  qed
qed

lemma load_loop_fails:
  assumes "p \<in> set paths" "body p = Inl e"
  shows "\<exists>e'. load_loop body paths acc = Inl e'"
  using assms
proof (induction paths arbitrary: acc)
  case Nil
  then show ?case by simp
next
  case (Cons q qs)
  show ?case
  proof (cases "body q")
    case (Inl e')
    then show ?thesis by simp
  next
    case (Inr img)
    with Cons.prems have "p \<in> set qs" by auto
    with Cons.IH Cons.prems(2) Inr show ?thesis by simp
  qed
qed

lemmas loader_defs = get_images_def load_image_def convert_and_resize_def
  remove_transparency_def cv2_cvtColor_BGR2RGB_def cv2_resize_def pixel_image_def
  divide_by_255_def shape_def emoji_imread_def

lemma get_images_emoji:
  "get_images emoji_files emoji_imread nearest nearest ''dir'' 2 1 = Inr images
   \<Longrightarrow> map shape images = [(1, 2, 3), (1, 2, 3)]"
  by (auto simp: loader_defs emoji_files_def Let_def)

lemma fl_2: "fl 2 = 2"
  by (rule fl_eval [where e = 1 and n = 4503599627370496, THEN trans])
    (simp_all add: fl_eval_simps)

text \<open>
  Claim C3, as the code has it. \<^verbatim>\<open>get_images\<close> hands \<^verbatim>\<open>(height, width)\<close> to
  \<^verbatim>\<open>cv2.resize\<close>, which reads it as (width, height): every image of the array
  returned has \<open>width\<close> rows, \<open>height\<close> columns and 3 channels, as the docstring
  says (n x width x height x 3). When every file has 8 bit depth, every element of
  the array lies in \<open>[0, 1]\<close>.
\<close>

theorem get_images_shape_and_range:
  assumes "get_images glob imread interp8 interp16 image_dir height width = Inr images"
    and "img \<in> set images"
  shows "shape img = (width, height, 3) \<and>
    ((\<forall>p \<in> set (glob image_dir). eight_bit (imread p)) \<longrightarrow>
     (\<forall>i j k. 0 \<le> px img i j k \<and> px img i j k \<le> 1))"
proof -
  let ?P = "\<lambda>a. shape (scale_image a) = (width, height, 3) \<and>
    ((\<forall>p \<in> set (glob image_dir). eight_bit (imread p)) \<longrightarrow>
     (\<forall>i j k. 0 \<le> px (scale_image a) i j k \<and> px (scale_image a) i j k \<le> 1))"
  from assms(1) obtain raw
    where raw: "load_loop (load_image imread interp8 interp16 height width) (glob image_dir) []
        = Inr raw"
      and images: "images = map scale_image raw"
    by (auto simp: get_images_def split: sum.splits)
  have "\<forall>a \<in> set raw. ?P a"
  proof (rule load_loop_all [OF raw])
    fix a :: image
    assume "a \<in> set []"
    then show "?P a" by simp
  next
    fix p a
    assume "p \<in> set (glob image_dir)"
      and "load_image imread interp8 interp16 height width p = Inr a"
    then show "?P a" using load_image_shape load_image_range by blast
  qed
  with assms(2) images show ?thesis by auto
qed

theorem get_images_shape_and_range_witness:
  "\<exists>images. get_images emoji_files emoji_imread nearest nearest ''dir'' 2 1 = Inr images \<and>
     images \<noteq> [] \<and>
     (\<forall>p \<in> set (emoji_files ''dir''). eight_bit (emoji_imread p)) \<and>
     shape (hd images) = (1, 2, 3) \<and>
     (\<forall>i j k. 0 \<le> px (hd images) i j k \<and> px (hd images) i j k \<le> 1)"
proof -
  obtain images
    where r: "get_images emoji_files emoji_imread nearest nearest ''dir'' 2 1 = Inr images"
    by (auto simp: loader_defs emoji_files_def)
  from get_images_emoji [OF r] have ne: "images \<noteq> []" by auto
  then have m: "hd images \<in> set images" by simp
  have e: "\<forall>p \<in> set (emoji_files ''dir''). eight_bit (emoji_imread p)"
    by (simp add: emoji_files_def emoji_imread_def eight_bit_def)
  from get_images_shape_and_range [OF r m] r ne e show ?thesis by blast
qed

text \<open>
  Claim C3 as stated fails in two ways. Where height and width differ: asked for
  height 2 and width 1, the loader returns arrays of shape (1, 2, 3), not (2, 1, 3).
  And on a file of 16 bit depth: the sample 510 becomes 510 / 255 = 2, outside
  \<open>[0, 1]\<close>.
\<close>

theorem get_images_shape_counterexample:
  "map_sum id (map shape) (get_images emoji_files emoji_imread nearest nearest ''dir'' 2 1)
     = Inr [(1, 2, 3), (1, 2, 3)] \<and>
   map_sum id (map (\<lambda>a. px a 0 0 0))
     (get_images deep_files emoji_imread nearest nearest ''dir'' 1 1) = Inr [2]"
  by (simp add: loader_defs emoji_files_def deep_files_def nearest_def float_of_word_def
      fdiv_def fl_2)

text \<open>
  Claim C8. A file that \<^verbatim>\<open>cv2.imread\<close> cannot decode (unreadable, or of zero
  bytes) makes \<^verbatim>\<open>get_images\<close> end with an exception: no array is returned, whatever
  the other files are.
\<close>

theorem get_images_fails_fast:
  assumes "image_path \<in> set (glob image_dir)" and "imread image_path = None"
  shows "\<exists>e. get_images glob imread interp8 interp16 image_dir height width = Inl e"
proof -
  have "load_image imread interp8 interp16 height width image_path = Inl AttributeError"
    using assms(2) by (simp add: load_image_def)
  then have "\<exists>e. load_loop (load_image imread interp8 interp16 height width)
      (glob image_dir) [] = Inl e"
    using assms(1) by (rule load_loop_fails [rotated])
  then show ?thesis by (auto simp: get_images_def split: sum.splits)
qed

theorem get_images_fails_fast_witness:
  "''empty.png'' \<in> set (broken_files ''dir'') \<and> emoji_imread ''empty.png'' = None \<and>
   (\<exists>e. get_images broken_files emoji_imread nearest nearest ''dir'' 64 64 = Inl e)"
proof -
  have 1: "''empty.png'' \<in> set (broken_files ''dir'')" by (simp add: broken_files_def)
  have 2: "emoji_imread ''empty.png'' = None" by (simp add: emoji_imread_def)
  from get_images_fails_fast [of "''empty.png''" broken_files "''dir''" emoji_imread, OF 1 2] 1 2
  show ?thesis by blast
qed

text \<open>
  Claim C5 at a transparent pixel and background colour 33: the product
  \<^verbatim>\<open>33 * (1 / 255.0) * 255.0\<close> is the double just below 33, and \<^verbatim>\<open>np.uint8\<close>
  cuts it to 32. The pixel of the result is (32, 32, 32), not the background colour.
\<close>

theorem remove_transparency_background_33:
  "map_sum id (\<lambda>a. map (px a 0 0) [0, 1, 2])
     (remove_transparency (pixel_image [10, 20, 30, 0 :: uint8]) 33) = Inr [32, 32, 32]"
  by (simp add: remove_transparency_def pixel_image_def cv2_addWeighted_def
      float_of_word_def np_uint8_def inv255 fl_33 bg33_scaled bg33_scaled_exact
      bg33_weighted bg33_weighted_exact fl_zero fl_one
      fmul_def [of 0] fmul_def [of _ 0] fmul_def [of _ 1] fsub_def fadd_def floor_rat_numeral)

text \<open>
  With the white background 255 that \<^verbatim>\<open>get_images\<close> passes, a transparent pixel
  becomes white exactly; an opaque pixel of value 33 becomes 32, by the same cut.
\<close>

lemma remove_transparency_white_background:
  "map_sum id (\<lambda>a. map (px a 0 0) [0, 1, 2])
     (remove_transparency (pixel_image [10, 20, 30, 0 :: uint8]) 255) = Inr [255, 255, 255]"
  by (simp add: remove_transparency_def pixel_image_def cv2_addWeighted_def
      float_of_word_def np_uint8_def inv255 fl_255 white_scaled fl_zero fl_one
      fmul_def [of 0] fmul_def [of _ 0] fmul_def [of 1] fsub_def fadd_def)

lemma remove_transparency_opaque_33:
  "map_sum id (\<lambda>a. map (px a 0 0) [0, 1, 2])
     (remove_transparency (pixel_image [33, 33, 33, 255 :: uint8]) 255) = Inr [32, 32, 32]"
  by (simp add: remove_transparency_def pixel_image_def cv2_addWeighted_def
      float_of_word_def np_uint8_def inv255 fl_255 white_scaled bg33_scaled bg33_scaled_exact
      bg33_weighted bg33_weighted_exact fl_zero fl_one
      fmul_def [of 0] fmul_def [of _ 0] fmul_def [of _ 1] fsub_def fadd_def floor_rat_numeral)

subsection \<open>The order of the updates\<close>

lemma save_data_updates: "save_data step g r dir = (err, evs) \<Longrightarrow> weight_updates evs = []"
  by (auto simp: save_data_def weight_updates_def Let_def split: list.splits)

lemma train_step_updates:
  assumes "train_step K x_train save_dir batch_size save_intervals step s = (err, s', evs)"
  shows "(weight_updates evs = [] \<and> err \<noteq> None) \<or> weight_updates evs = update_pair step"
  using assms
  unfolding train_step_def
  by (auto simp: weight_updates_def update_pair_def Let_def
      dest!: save_data_updates [unfolded weight_updates_def]
      split: if_splits prod.splits option.splits)

lemma train_loop_append:
  "train_loop body (xs @ ys) s =
     (case train_loop body xs s of
        (Some e, s1, evs) \<Rightarrow> (Some e, s1, evs)
      | (None, s1, evs) \<Rightarrow>
          (case train_loop body ys s1 of (err, s2, evs') \<Rightarrow> (err, s2, evs @ evs')))"
  by (induction xs arbitrary: s) (auto split: prod.splits option.splits)

lemma train_step_calls:
  assumes "train_step K x_train save_dir batch_size save_intervals step t = (e, t', evs)"
    and "weight_updates evs = update_pair step"
  shows "\<exists>z1 real_images draws z r3 r4 s1 d_loss a_loss.
      discriminator_train_on_batch K (t\<lparr>rng := r3\<rparr>)
        (predict K (weights (generator t)) z1 @ real_images)
        (add_label_noise (assemble_labels (nat batch_size)) draws) = (s1, d_loss) \<and>
      gan_train_on_batch K (s1\<lparr>rng := r4\<rparr>) z (replicate (nat batch_size) 0) = (t', a_loss)"
  using assms
  unfolding train_step_def
  by (auto simp: weight_updates_def update_pair_def Let_def
      split: if_splits prod.splits option.splits) blast+

lemma train_on_batch_in_order:
  assumes "discriminator_train_on_batch K (t\<lparr>rng := r3\<rparr>) images labels = (s1, d_loss)"
    and "gan_train_on_batch K (s1\<lparr>rng := r4\<rparr>) z targets = (t', a_loss)"
  shows "updates_in_order K t images labels z targets t'"
  using assms
  by (auto simp: updates_in_order_def discriminator_train_on_batch_def gan_train_on_batch_def
      Let_def split: prod.splits)

lemma train_step_in_order:
  assumes "train_step K x_train save_dir batch_size save_intervals step t = (e, t', evs)"
    and "weight_updates evs = update_pair step"
  shows "\<exists>z1 real_images draws z.
      updates_in_order K t (predict K (weights (generator t)) z1 @ real_images)
        (add_label_noise (assemble_labels (nat batch_size)) draws) z
        (replicate (nat batch_size) 0) t'"
proof -
  from train_step_calls [OF assms] obtain z1 real_images draws z r3 r4 s1 d_loss a_loss
    where d: "discriminator_train_on_batch K (t\<lparr>rng := r3\<rparr>)
        (predict K (weights (generator t)) z1 @ real_images)
        (add_label_noise (assemble_labels (nat batch_size)) draws) = (s1, d_loss)"
      and g: "gan_train_on_batch K (s1\<lparr>rng := r4\<rparr>) z (replicate (nat batch_size) 0)
        = (t', a_loss)"
    by blast
  from train_on_batch_in_order [OF d g] show ?thesis by blast
qed

lemma train_loop_passes:
  assumes "train_loop (train_step K x_train save_dir batch_size save_intervals) [0..<n] s
             = (err, s', tr)"
  shows "\<exists>m \<le> n.
      weight_updates tr = concat (map update_pair [0..<m]) \<and>
      (err = None \<longrightarrow> m = n) \<and>
      (\<forall>k<m. \<exists>t tr_k.
         train_loop (train_step K x_train save_dir batch_size save_intervals) [0..<k] s
           = (None, t, tr_k) \<and>
         weight_updates (snd (snd (train_step K x_train save_dir batch_size save_intervals k t)))
           = update_pair k)"
  using assms
proof (induction n arbitrary: err s' tr)
  case 0
  then show ?case by (simp add: weight_updates_def)
next
  case (Suc n)
  let ?body = "train_step K x_train save_dir batch_size save_intervals"
  obtain e1 s1 tr1 where r1: "train_loop ?body [0..<n] s = (e1, s1, tr1)"
    by (cases "train_loop ?body [0..<n] s")
  from Suc.IH [OF r1] obtain m where m: "m \<le> n"
    "weight_updates tr1 = concat (map update_pair [0..<m])"
    "e1 = None \<longrightarrow> m = n"
    "\<forall>k<m. \<exists>t tr_k. train_loop ?body [0..<k] s = (None, t, tr_k) \<and>
         weight_updates (snd (snd (?body k t))) = update_pair k"
    by blast
  have split: "train_loop ?body [0..<Suc n] s =
     (case train_loop ?body [0..<n] s of
        (Some e, s1, evs) \<Rightarrow> (Some e, s1, evs)
      | (None, s1, evs) \<Rightarrow>
          (case train_loop ?body [n] s1 of (err, s2, evs') \<Rightarrow> (err, s2, evs @ evs')))"
    using train_loop_append [of ?body "[0..<n]" "[n]" s] by simp
  show ?case
  proof (cases e1)
    case (Some e)
    with Suc.prems r1 split have "err = Some e" "tr = tr1" by simp_all
    with m show ?thesis by (intro exI [of _ m]) simp
  next
    case None
    with m have mn: "m = n" by simp
    obtain e2 s2 evs2 where b: "?body n s1 = (e2, s2, evs2)" by (cases "?body n s1")
    have last: "train_loop ?body [n] s1 = (e2, s2, evs2)"
      using b by (cases e2) simp_all
    from Suc.prems r1 split None last have eq: "err = e2" "tr = tr1 @ evs2" by simp_all
    from train_step_updates [OF b]
    show ?thesis
    proof (elim disjE conjE)
      assume "weight_updates evs2 = []" "e2 \<noteq> None"
      with m mn eq show ?thesis
        by (intro exI [of _ n]) (simp add: weight_updates_def)
    next
      assume u: "weight_updates evs2 = update_pair n"
      have "\<forall>k<Suc n. \<exists>t tr_k. train_loop ?body [0..<k] s = (None, t, tr_k) \<and>
         weight_updates (snd (snd (?body k t))) = update_pair k"
      proof (intro allI impI)
        fix k assume "k < Suc n"
        show "\<exists>t tr_k. train_loop ?body [0..<k] s = (None, t, tr_k) \<and>
         weight_updates (snd (snd (?body k t))) = update_pair k"
        proof (cases "k < n")
          case True
          with m(4) mn show ?thesis by simp
        next
          case False
          with \<open>k < Suc n\<close> have "k = n" by simp
          with r1 None b u show ?thesis by simp
        qed
      qed
      with m mn eq u show ?thesis
        by (intro exI [of _ "Suc n"]) (simp add: weight_updates_def)
    qed
  qed
qed

lemma counting_run:
  "train_gan counting_kernels counting_session [()] 4 None 1 2 False
   = (None,
      counting_session
        \<lparr>generator := (generator counting_session)\<lparr>weights := 4\<rparr>,
         discriminator := (discriminator counting_session)\<lparr>weights := 4\<rparr>\<rparr>,
      [GeneratorPredict 0, DiscriminatorTrainOnBatch 0, GanTrainOnBatch 0,
       PrintStep 0, PrintDiscriminatorLoss (Finite 1), PrintAdversarialLoss (Finite 1),
       GeneratorPredict 1, DiscriminatorTrainOnBatch 1, GanTrainOnBatch 1,
       GeneratorPredict 2, DiscriminatorTrainOnBatch 2, GanTrainOnBatch 2,
       PrintStep 2, PrintDiscriminatorLoss NaN, PrintAdversarialLoss NaN,
       GeneratorPredict 3, DiscriminatorTrainOnBatch 3, GanTrainOnBatch 3])"
proof -
  have steps: "[0..<nat 4] = [0, 1, 2, 3]" by (simp add: upt_rec)
  show ?thesis
    unfolding train_gan_def steps
    by (simp add: train_step_def counting_kernels_def counting_session_def
        initialize_models_def build_discriminator_def build_generator_def build_gan_def
        discriminator_train_on_batch_def gan_train_on_batch_def Let_def)
qed

text \<open>
  Claim C4. In every pass of \<^verbatim>\<open>train_gan\<close> that updates weights, the chain's
  (generator's) optimizer step is computed on the discriminator's weights that the
  discriminator's optimizer step of the same pass has returned and stored: the
  discriminator's update is complete before the generator's begins. In the events of
  the run the updates are, in this order, the discriminator's of step 0, the
  generator's of step 0, the discriminator's of step 1, and so on; no pass has the
  generator's update first or alone. A run that ends without exception has the pair
  of every step; one that an exception ends has the pairs of the steps before it.
  The session \<open>t\<close> before pass \<open>k\<close> is the one that the run of \<open>k\<close> iterations leaves.
\<close>

theorem discriminator_update_precedes_generator_update:
  assumes "train_gan K s x_train iterations save_dir batch_size save_intervals save_weights
             = (err, s', tr)"
  shows "\<exists>m \<le> nat iterations.
      weight_updates tr = concat (map update_pair [0..<m]) \<and>
      (err = None \<longrightarrow> m = nat iterations) \<and>
      (\<forall>k<m. \<exists>t tr_k z1 real_images draws z.
         train_gan K s x_train (int k) save_dir batch_size save_intervals save_weights
           = (None, t, tr_k) \<and>
         updates_in_order K t (predict K (weights (generator t)) z1 @ real_images)
           (add_label_noise (assemble_labels (nat batch_size)) draws) z
           (replicate (nat batch_size) 0)
           (fst (snd (train_step K x_train save_dir batch_size save_intervals k t))))"
proof -
  let ?body = "train_step K x_train save_dir batch_size save_intervals"
  from assms have "train_loop ?body [0..<nat iterations] s = (err, s', tr)"
    by (simp add: train_gan_def)
  from train_loop_passes [OF this] obtain m where m: "m \<le> nat iterations"
    "weight_updates tr = concat (map update_pair [0..<m])"
    "err = None \<longrightarrow> m = nat iterations"
    and passes: "\<forall>k<m. \<exists>t tr_k. train_loop ?body [0..<k] s = (None, t, tr_k) \<and>
         weight_updates (snd (snd (?body k t))) = update_pair k"
    by blast
  have "\<exists>t tr_k z1 real_images draws z.
         train_gan K s x_train (int k) save_dir batch_size save_intervals save_weights
           = (None, t, tr_k) \<and>
         updates_in_order K t (predict K (weights (generator t)) z1 @ real_images)
           (add_label_noise (assemble_labels (nat batch_size)) draws) z
           (replicate (nat batch_size) 0) (fst (snd (?body k t)))" if "k < m" for k
  proof -
    from passes that obtain t tr_k where t: "train_loop ?body [0..<k] s = (None, t, tr_k)"
      and u: "weight_updates (snd (snd (?body k t))) = update_pair k" by blast
    obtain e t' evs where b: "?body k t = (e, t', evs)" by (cases "?body k t")
    from train_step_in_order [OF b] u b obtain z1 real_images draws z
      where "updates_in_order K t (predict K (weights (generator t)) z1 @ real_images)
           (add_label_noise (assemble_labels (nat batch_size)) draws) z
           (replicate (nat batch_size) 0) t'" by auto
    with t b show ?thesis by (auto simp: train_gan_def)
  qed
  with m show ?thesis by blast
qed

lemma recording_run:
  "train_gan recording_kernels counting_session [()] 2 None 1 2 False
   = (None,
      counting_session
        \<lparr>generator := (generator counting_session)\<lparr>weights := 2\<rparr>,
         discriminator := (discriminator counting_session)\<lparr>weights := 2\<rparr>\<rparr>,
      [GeneratorPredict 0, DiscriminatorTrainOnBatch 0, GanTrainOnBatch 0,
       PrintStep 0, PrintDiscriminatorLoss (Finite 0), PrintAdversarialLoss (Finite 0),
       GeneratorPredict 1, DiscriminatorTrainOnBatch 1, GanTrainOnBatch 1])"
proof -
  have steps: "[0..<nat 2] = [0, 1]" by (simp add: upt_rec)
  show ?thesis
    unfolding train_gan_def steps
    by (simp add: train_step_def recording_kernels_def counting_session_def
        initialize_models_def build_discriminator_def build_generator_def build_gan_def
        discriminator_train_on_batch_def gan_train_on_batch_def Let_def)
qed

theorem discriminator_update_precedes_generator_update_witness:
  "weight_updates (snd (snd (train_gan recording_kernels counting_session [()] 2 None 1 2 False)))
     = [DiscriminatorTrainOnBatch 0, GanTrainOnBatch 0,
        DiscriminatorTrainOnBatch 1, GanTrainOnBatch 1] \<and>
   (\<exists>t tr_k z1 real_images draws z.
      train_gan recording_kernels counting_session [()] 1 None 1 2 False = (None, t, tr_k) \<and>
      updates_in_order recording_kernels t
        (predict recording_kernels (weights (generator t)) z1 @ real_images)
        (add_label_noise (assemble_labels (nat 1)) draws) z (replicate (nat 1) 0)
        (fst (snd (train_step recording_kernels [()] None 1 2 1 t))))"
proof -
  from discriminator_update_precedes_generator_update [OF recording_run]
  obtain m where m: "m \<le> nat 2" "None = (None :: error option) \<longrightarrow> m = nat 2"
    and u: "weight_updates
      [GeneratorPredict 0, DiscriminatorTrainOnBatch 0, GanTrainOnBatch 0,
       PrintStep 0, PrintDiscriminatorLoss (Finite 0), PrintAdversarialLoss (Finite 0),
       GeneratorPredict 1, DiscriminatorTrainOnBatch 1, GanTrainOnBatch 1 :: unit event]
      = concat (map update_pair [0..<m])"
    and p: "\<forall>k<m. \<exists>t tr_k z1 real_images draws z.
         train_gan recording_kernels counting_session [()] (int k) None 1 2 False
           = (None, t, tr_k) \<and>
         updates_in_order recording_kernels t
           (predict recording_kernels (weights (generator t)) z1 @ real_images)
           (add_label_noise (assemble_labels (nat 1)) draws) z (replicate (nat 1) 0)
           (fst (snd (train_step recording_kernels [()] None 1 2 k t)))"
    by blast
  from m have m2: "m = 2" by simp
  have "[0..<2] = [0, 1 :: nat]" by (simp add: upt_rec)
  with u m2 have 1: "weight_updates
      (snd (snd (train_gan recording_kernels counting_session [()] 2 None 1 2 False)))
     = [DiscriminatorTrainOnBatch 0, GanTrainOnBatch 0,
        DiscriminatorTrainOnBatch 1, GanTrainOnBatch 1]"
    by (simp add: recording_run update_pair_def)
  have lt: "(1 :: nat) < m" using m2 by simp
  from p [rule_format, OF lt] have "\<exists>t tr_k z1 real_images draws z.
         train_gan recording_kernels counting_session [()] (int 1) None 1 2 False
           = (None, t, tr_k) \<and>
         updates_in_order recording_kernels t
           (predict recording_kernels (weights (generator t)) z1 @ real_images)
           (add_label_noise (assemble_labels (nat 1)) draws) z (replicate (nat 1) 0)
           (fst (snd (train_step recording_kernels [()] None 1 2 1 t)))"
    .
  then have "\<exists>t tr_k z1 real_images draws z.
         train_gan recording_kernels counting_session [()] 1 None 1 2 False
           = (None, t, tr_k) \<and>
         updates_in_order recording_kernels t
           (predict recording_kernels (weights (generator t)) z1 @ real_images)
           (add_label_noise (assemble_labels (nat 1)) draws) z (replicate (nat 1) 0)
           (fst (snd (train_step recording_kernels [()] None 1 2 1 t)))"
    by (simp only: of_nat_1)
  with 1 show ?thesis by (rule conjI)
qed

subsection \<open>Losses and learning rates\<close>

lemma discriminator_train_on_batch_replace:
  "discriminator_train_on_batch (replace_losses f K) s images labels =
     (case discriminator_train_on_batch K s images labels of (s', l) \<Rightarrow> (s', f l))"
  by (simp add: discriminator_train_on_batch_def replace_losses_def Let_def split: prod.splits)

lemma gan_train_on_batch_replace:
  "gan_train_on_batch (replace_losses f K) s z targets =
     (case gan_train_on_batch K s z targets of (s', l) \<Rightarrow> (s', f l))"
  by (simp add: gan_train_on_batch_def replace_losses_def Let_def split: prod.splits)

lemma replace_losses_draws [simp]:
  "np_normal (replace_losses f K) = np_normal K"
  "np_randint (replace_losses f K) = np_randint K"
  "np_random (replace_losses f K) = np_random K"
  "predict (replace_losses f K) = predict K"
  by (simp_all add: replace_losses_def)

lemma save_data_relabel: "save_data step g r dir = (err, evs) \<Longrightarrow> map (relabel f) evs = evs"
  by (auto simp: save_data_def Let_def split: list.splits)

lemma train_step_replace:
  "train_step (replace_losses f K) x_train save_dir batch_size save_intervals step s =
     (case train_step K x_train save_dir batch_size save_intervals step s of
        (err, s', evs) \<Rightarrow> (err, s', map (relabel f) evs))"
  unfolding train_step_def
  by (auto simp: discriminator_train_on_batch_replace gan_train_on_batch_replace Let_def
      dest: save_data_relabel [where f = f] split: prod.splits option.splits)

lemma train_loop_relabel:
  assumes "\<And>step s. body' step s = (case body step s of (err, s', evs) \<Rightarrow> (err, s', map g evs))"
  shows "train_loop body' steps s =
     (case train_loop body steps s of (err, s', evs) \<Rightarrow> (err, s', map g evs))"
proof (induction steps arbitrary: s)
  case Nil
  show ?case by simp
next
  case (Cons step steps)
  have b: "body' step s = (case body step s of (err, s', evs) \<Rightarrow> (err, s', map g evs))"
    by (rule assms)
  show ?case
    by (cases "body step s") (auto simp: b Cons.IH split: prod.splits option.splits)
qed

lemma train_loop_invariant:
  assumes "\<And>step s err s' evs. body step s = (err, s', evs) \<Longrightarrow> I s \<Longrightarrow> I s'"
    and "I s" and "train_loop body steps s = (err, s', evs)"
  shows "I s'"
  using assms(2,3)
proof (induction steps arbitrary: s err s' evs)
  case Nil
  then show ?case by simp
next
  case (Cons step steps)
  obtain e1 s1 evs1 where b: "body step s = (e1, s1, evs1)" by (cases "body step s")
  from assms(1) [OF b Cons.prems(1)] have i1: "I s1" .
  show ?case
  proof (cases e1)
    case (Some e)
    with b Cons.prems(2) i1 show ?thesis by simp
  next
    case None
    obtain e2 s2 evs2 where r: "train_loop body steps s1 = (e2, s2, evs2)"
      by (cases "train_loop body steps s1")
    with b None Cons.prems(2) have "s' = s2" by simp
    with Cons.IH [OF i1 r] show ?thesis by simp
  qed
qed

lemma discriminator_train_on_batch_frame:
  "discriminator_train_on_batch K s images labels = (s', l) \<Longrightarrow>
     flags s' = flags s \<and> learning_rates s' = learning_rates s \<and> rng s' = rng s"
  by (auto simp: discriminator_train_on_batch_def flags_def learning_rates_def Let_def
      split: prod.splits)

lemma gan_train_on_batch_frame:
  "gan_train_on_batch K s z targets = (s', l) \<Longrightarrow>
     flags s' = flags s \<and> learning_rates s' = learning_rates s \<and> rng s' = rng s"
  by (auto simp: gan_train_on_batch_def flags_def learning_rates_def Let_def
      split: prod.splits)

lemma flags_rng [simp]: "flags (s\<lparr>rng := r\<rparr>) = flags s"
  by (simp add: flags_def)

lemma learning_rates_rng [simp]: "learning_rates (s\<lparr>rng := r\<rparr>) = learning_rates s"
  by (simp add: learning_rates_def)

lemma train_step_frame:
  assumes "train_step K x_train save_dir batch_size save_intervals step s = (err, s', evs)"
  shows "flags s' = flags s \<and> learning_rates s' = learning_rates s"
  using assms
  unfolding train_step_def
  by (auto simp: Let_def split: if_splits prod.splits option.splits
      dest!: discriminator_train_on_batch_frame gan_train_on_batch_frame)


lemma train_gan_frame:
  assumes "train_gan K s x_train iterations save_dir batch_size save_intervals save_weights
             = (err, s', tr)"
  shows "flags s' = flags s \<and> learning_rates s' = learning_rates s"
proof -
  have "flags s' = flags s \<and> learning_rates s' = learning_rates s"
  proof (rule train_loop_invariant
      [where I = "\<lambda>t. flags t = flags s \<and> learning_rates t = learning_rates s"
        and body = "train_step K x_train save_dir batch_size save_intervals"])
    show "flags s = flags s \<and> learning_rates s = learning_rates s" by simp
    show "train_loop (train_step K x_train save_dir batch_size save_intervals)
        [0..<nat iterations] s = (err, s', tr)"
      using assms by (simp add: train_gan_def)
  next
    fix step t e t' evs
    assume "train_step K x_train save_dir batch_size save_intervals step t = (e, t', evs)"
      and "flags t = flags s \<and> learning_rates t = learning_rates s"
    then show "flags t' = flags s \<and> learning_rates t' = learning_rates s"
      using train_step_frame by metis
  qed
  then show ?thesis .
qed

text \<open>
  Claim C6, as the code has it. \<^verbatim>\<open>train_gan\<close> never tests a loss: whatever the
  losses are, finite or not, the run raises the same exception or ends normally, leaves
  the same weights, optimizer states and random state, and has the same events, but for
  the values that the print statements show at the steps with
  \<^verbatim>\<open>step % save_intervals == 0\<close>; and it leaves both learning rates as they were.
\<close>

theorem train_gan_never_reads_losses:
  "train_gan (replace_losses f K) s x_train iterations save_dir batch_size save_intervals
     save_weights =
   (case train_gan K s x_train iterations save_dir batch_size save_intervals save_weights of
      (err, s', tr) \<Rightarrow> (err, s', map (relabel f) tr))
   \<and> learning_rates (fst (snd (train_gan K s x_train iterations save_dir batch_size
          save_intervals save_weights))) = learning_rates s"
proof
  show "train_gan (replace_losses f K) s x_train iterations save_dir batch_size save_intervals
     save_weights =
   (case train_gan K s x_train iterations save_dir batch_size save_intervals save_weights of
      (err, s', tr) \<Rightarrow> (err, s', map (relabel f) tr))"
    unfolding train_gan_def by (rule train_loop_relabel) (rule train_step_replace)
  obtain err s' tr where r: "train_gan K s x_train iterations save_dir batch_size
     save_intervals save_weights = (err, s', tr)"
    by (cases "train_gan K s x_train iterations save_dir batch_size save_intervals save_weights")
  from train_gan_frame [OF r] r
  show "learning_rates (fst (snd (train_gan K s x_train iterations save_dir batch_size
          save_intervals save_weights))) = learning_rates s" by simp
qed

text \<open>
  Claim C6 as stated fails: with losses that are not a number from step 1 on, four
  iterations and a print every second step, the loop runs its four passes, updates
  both networks in each, prints \<open>nan\<close> at step 2 and goes on to step 3; it ends
  without exception and with the learning rates it started with.
\<close>

theorem nan_loss_counterexample:
  "(case train_gan counting_kernels counting_session [()] 4 None 1 2 False of
      (err, s', tr) \<Rightarrow> (err, learning_rates s' = learning_rates counting_session,
                        weights (generator s'), weights (discriminator s'), tr))
   = (None, True, 4, 4,
      [GeneratorPredict 0, DiscriminatorTrainOnBatch 0, GanTrainOnBatch 0,
       PrintStep 0, PrintDiscriminatorLoss (Finite 1), PrintAdversarialLoss (Finite 1),
       GeneratorPredict 1, DiscriminatorTrainOnBatch 1, GanTrainOnBatch 1,
       GeneratorPredict 2, DiscriminatorTrainOnBatch 2, GanTrainOnBatch 2,
       PrintStep 2, PrintDiscriminatorLoss NaN, PrintAdversarialLoss NaN,
       GeneratorPredict 3, DiscriminatorTrainOnBatch 3, GanTrainOnBatch 3])
   \<and> \<not> isfinite NaN"
  by (simp only: counting_run prod.case) (simp add: learning_rates_def)

subsection \<open>Frozen weights\<close>

lemma initialize_models_flags:
  "flags (initialize_models wd od wg og r) = [True, False, False, True, True, False]"
  by (simp add: flags_def initialize_models_def build_discriminator_def build_generator_def
      build_gan_def)

text \<open>
  Claim C1, as the code has it. In a session that the notebook has initialized, after
  any number of passes of \<^verbatim>\<open>train_gan\<close>: the discriminator's update stores the
  weights of its optimizer step in the discriminator (which was compiled while its
  \<^verbatim>\<open>trainable\<close> attribute was True) and leaves the generator's weights; the
  generator's update that follows leaves the discriminator's weights as they are (the
  GAN model was compiled after \<^verbatim>\<open>build_gan\<close> had set the attribute to False) and
  stores the step's weights in the generator. The attribute is False throughout;
  \<^verbatim>\<open>train_gan\<close> never assigns it.
\<close>

theorem discriminator_frozen_in_gan_only:
  assumes run: "train_gan K (initialize_models wd od wg og r) x_train iterations save_dir
             batch_size save_intervals save_weights = (err, s, tr)"
    and d: "discriminator_train_on_batch K (s\<lparr>rng := r1\<rparr>) images labels = (s1, d_loss)"
    and g: "gan_train_on_batch K (s1\<lparr>rng := r2\<rparr>) z targets = (s2, a_loss)"
  shows "\<not> trainable (discriminator s) \<and> \<not> trainable (discriminator s1) \<and>
    \<not> trainable (discriminator s2) \<and>
    weights (discriminator s1) =
      fst (snd (fit_discriminator K (discriminator_model s) (weights (discriminator s))
        images labels)) \<and>
    weights (generator s1) = weights (generator s) \<and>
    weights (discriminator s2) = weights (discriminator s1) \<and>
    weights (generator s2) =
      fst (snd (fit_gan K (gan_model s1) (weights (generator s1)) (weights (discriminator s1))
        z targets))"
proof -
  from train_gan_frame [OF run]
  have "flags s = [True, False, False, True, True, False]"
    by (simp add: initialize_models_flags)
  with d g show ?thesis
    by (auto simp: flags_def discriminator_train_on_batch_def gan_train_on_batch_def Let_def
        split: prod.splits)
qed

lemma counting_session_init: "counting_session = initialize_models 0 () 0 () ()"
  by (rule counting_session_def)

theorem discriminator_frozen_in_gan_only_witness:
  "\<exists>s s1 s2 d_loss a_loss.
     train_gan counting_kernels (initialize_models 0 () 0 () ()) [()] 2 None 1 2 False
       = (None, s, [GeneratorPredict 0, DiscriminatorTrainOnBatch 0, GanTrainOnBatch 0,
           PrintStep 0, PrintDiscriminatorLoss (Finite 1), PrintAdversarialLoss (Finite 1),
           GeneratorPredict 1, DiscriminatorTrainOnBatch 1, GanTrainOnBatch 1]) \<and>
     discriminator_train_on_batch counting_kernels (s\<lparr>rng := ()\<rparr>) [()] [1] = (s1, d_loss) \<and>
     gan_train_on_batch counting_kernels (s1\<lparr>rng := ()\<rparr>) [()] [0] = (s2, a_loss) \<and>
     \<not> trainable (discriminator s) \<and> weights (discriminator s) = 2 \<and>
     weights (discriminator s1) = 3 \<and> weights (discriminator s2) = 3 \<and>
     weights (generator s1) = 2 \<and> weights (generator s2) = 3"
proof -
  let ?s = "counting_session
        \<lparr>generator := (generator counting_session)\<lparr>weights := 2\<rparr>,
         discriminator := (discriminator counting_session)\<lparr>weights := 2\<rparr>\<rparr>"
  have steps: "[0..<nat 2] = [0, 1]" by (simp add: upt_rec)
  have "train_gan counting_kernels counting_session [()] 2 None 1 2 False
      = (None, ?s, [GeneratorPredict 0, DiscriminatorTrainOnBatch 0, GanTrainOnBatch 0,
           PrintStep 0, PrintDiscriminatorLoss (Finite 1), PrintAdversarialLoss (Finite 1),
           GeneratorPredict 1, DiscriminatorTrainOnBatch 1, GanTrainOnBatch 1])"
    unfolding train_gan_def steps
    by (simp add: train_step_def counting_kernels_def counting_session_def
        initialize_models_def build_discriminator_def build_generator_def build_gan_def
        discriminator_train_on_batch_def gan_train_on_batch_def Let_def)
  then have run: "train_gan counting_kernels (initialize_models 0 () 0 () ()) [()] 2 None 1 2 False
      = (None, ?s, [GeneratorPredict 0, DiscriminatorTrainOnBatch 0, GanTrainOnBatch 0,
           PrintStep 0, PrintDiscriminatorLoss (Finite 1), PrintAdversarialLoss (Finite 1),
           GeneratorPredict 1, DiscriminatorTrainOnBatch 1, GanTrainOnBatch 1])"
    by (simp only: counting_session_init)
  obtain s1 d_loss
    where d: "discriminator_train_on_batch counting_kernels (?s\<lparr>rng := ()\<rparr>) [()] [1] = (s1, d_loss)"
    by (cases "discriminator_train_on_batch counting_kernels (?s\<lparr>rng := ()\<rparr>) [()] [1]")
  obtain s2 a_loss
    where g: "gan_train_on_batch counting_kernels (s1\<lparr>rng := ()\<rparr>) [()] [0] = (s2, a_loss)"
    by (cases "gan_train_on_batch counting_kernels (s1\<lparr>rng := ()\<rparr>) [()] [0]")
  have "weights (discriminator ?s) = 2" "weights (generator ?s) = 2" by simp_all
  with discriminator_frozen_in_gan_only [OF run d g]
  have "\<not> trainable (discriminator ?s) \<and> weights (discriminator ?s) = 2 \<and>
     weights (discriminator s1) = 3 \<and> weights (discriminator s2) = 3 \<and>
     weights (generator s1) = 2 \<and> weights (generator s2) = 3"
    by (simp add: counting_kernels_def)
  with run d g show ?thesis by blast
qed

text \<open>
  Claim C1 as stated fails: the discriminator is not restored to the trainable
  state. After four passes, before a next discriminator update, its
  \<^verbatim>\<open>trainable\<close> attribute is False, as \<^verbatim>\<open>build_gan\<close> has left it.
\<close>

theorem trainable_flag_counterexample:
  "(case train_gan counting_kernels counting_session [()] 4 None 1 2 False of
      (err, s, tr) \<Rightarrow> (err, trainable (discriminator s), flags s))
   = (None, False, [True, False, False, True, True, False])"
  by (simp only: counting_run prod.case)
    (simp add: flags_def counting_session_def initialize_models_def
      build_discriminator_def build_generator_def build_gan_def)

subsection \<open>Label noise\<close>

lemma double_0_05: "fl (1 / 20) = 3602879701896397 / 72057594037927936"
  by (rule fl_eval [where e = "- 5" and n = 7205759403792794, THEN trans])
    (simp_all add: fl_eval_simps)

lemma double_0_05_exact:
  "fl (3602879701896397 / 72057594037927936) = 3602879701896397 / 72057594037927936"
  by (rule fl_eval [where e = "- 5" and n = 7205759403792794, THEN trans])
    (simp_all add: fl_eval_simps)

lemma label_noise_range:
  assumes "0 \<le> u" "u \<le> 1"
  shows "0 \<le> label_noise u \<and> label_noise u \<le> fl (1 / 20)"
proof -
  let ?c = "fl (1 / 20)"
  have c: "0 \<le> ?c" by (simp add: double_0_05)
  have "0 \<le> ?c * u" using c assms(1) by simp
  then have lo: "0 \<le> fl (?c * u)" by (rule fl_nonneg)
  have "?c * u \<le> ?c * 1" using c assms(2) by (rule mult_left_mono [rotated])
  then have "fl (?c * u) \<le> fl (?c * 1)" by (rule fl_mono)
  also have "fl (?c * 1) = ?c" by (simp add: double_0_05 double_0_05_exact)
  finally show ?thesis using lo by (simp add: label_noise_def fmul_def)
qed

lemma label_noise_half: "label_noise (1 / 2) = 3602879701896397 / 144115188075855872"
  unfolding label_noise_def fmul_def double_0_05
  by (rule fl_eval [where e = "- 6" and n = 7205759403792794, THEN trans])
    (simp_all add: fl_eval_simps)

lemma add_label_noise_nth:
  assumes "i < length labels" "length draws = length labels"
  shows "add_label_noise labels draws ! i = fadd (labels ! i) (label_noise (draws ! i))"
  using assms by (simp add: add_label_noise_def)

lemma perturbed_label:
  assumes "unit_draws (length labels) draws" and "i < length labels"
  shows "add_label_noise labels draws ! i = fadd (labels ! i) (label_noise (draws ! i)) \<and>
         0 \<le> label_noise (draws ! i) \<and> label_noise (draws ! i) \<le> fl (1 / 20)"
proof -
  from assms have len: "length draws = length labels" and "draws ! i \<in> set draws"
    by (simp_all add: unit_draws_def)
  with assms(1) have "0 \<le> draws ! i" "draws ! i \<le> 1"
    by (auto simp: unit_draws_def list_all_iff)
  then show ?thesis
    using label_noise_range add_label_noise_nth [OF assms(2) len] by simp
qed

text \<open>
  Claim C2, as the code has it. The term added to a label is \<^verbatim>\<open>0.05 * u\<close> for the
  draw \<open>u\<close> of \<^verbatim>\<open>np.random.random\<close> in \<open>[0, 1)\<close>: it lies between 0 and 0.05 and
  is never negative. The noise has one side, with the distribution of the draw
  scaled by 0.05.
\<close>

theorem label_noise_one_sided:
  assumes "unit_draws (length labels) draws" and "i < length labels"
  shows "add_label_noise labels draws ! i = fadd (labels ! i) (label_noise (draws ! i)) \<and>
         0 \<le> label_noise (draws ! i) \<and> label_noise (draws ! i) \<le> fl (1 / 20)"
  using assms by (rule perturbed_label)

theorem label_noise_one_sided_witness:
  "unit_draws (length (assemble_labels 1)) [1 / 2, 0] \<and>
   add_label_noise (assemble_labels 1) [1 / 2, 0] ! 0 = fadd 1 (label_noise (1 / 2)) \<and>
   0 \<le> label_noise (1 / 2) \<and> label_noise (1 / 2) \<le> fl (1 / 20)"
proof -
  have u: "unit_draws (length (assemble_labels 1)) [1 / 2, 0]"
    by (simp add: unit_draws_def assemble_labels_def)
  have i: "0 < length (assemble_labels 1)" by (simp add: assemble_labels_def)
  from label_noise_one_sided [OF u i] u show ?thesis
    by (simp add: assemble_labels_def)
qed

text \<open>
  Claim C2 as stated fails: a noise uniform on \<open>[-0.05, 0.05]\<close> is negative for half
  of the draws; here no draw gives a negative term, and the middle draw \<open>1/2\<close> gives
  0.025.
\<close>

theorem label_noise_symmetric_counterexample:
  "\<not> (\<exists>u. 0 \<le> u \<and> u < 1 \<and> label_noise u < 0) \<and>
   label_noise (1 / 2) = 3602879701896397 / 144115188075855872"
proof -
  have "\<not> label_noise u < 0" if "0 \<le> u" "u < 1" for u
    using label_noise_range [of u] that by simp
  then show ?thesis using label_noise_half by blast
qed

lemma weighted_sum_ge:
  fixes a :: rat
  assumes "list_all (\<lambda>(p, x). 0 \<le> p) D" "list_all (\<lambda>(p, x). a \<le> f x) D"
  shows "a * sum_list (map fst D) \<le> sum_list (map (\<lambda>(p, x). p * f x) D)"
  using assms
proof (induction D)
  case Nil
  then show ?case by simp
next
  case (Cons px D)
  obtain p x where px: "px = (p, x)" by (cases px)
  with Cons.prems have "0 \<le> p" "a \<le> f x" by simp_all
  then have "a * p \<le> p * f x" using mult_left_mono [of a "f x" p] by (simp add: mult.commute)
  moreover have "a * sum_list (map fst D) \<le> sum_list (map (\<lambda>(p, x). p * f x) D)"
    using Cons by simp
  ultimately show ?case by (simp add: px distrib_left)
qed

lemma weighted_sum_le:
  fixes a :: rat
  assumes "list_all (\<lambda>(p, x). 0 \<le> p) D" "list_all (\<lambda>(p, x). f x \<le> a) D"
  shows "sum_list (map (\<lambda>(p, x). p * f x) D) \<le> a * sum_list (map fst D)"
  using assms
proof (induction D)
  case Nil
  then show ?case by simp
next
  case (Cons px D)
  obtain p x where px: "px = (p, x)" by (cases px)
  with Cons.prems have "0 \<le> p" "f x \<le> a" by simp_all
  then have "p * f x \<le> a * p" using mult_left_mono [of "f x" a p] by (simp add: mult.commute)
  moreover have "sum_list (map (\<lambda>(p, x). p * f x) D) \<le> a * sum_list (map fst D)"
    using Cons by simp
  ultimately show ?case by (simp add: px distrib_left)
qed

lemma fake_label_ge:
  assumes "unit_draws (2 * b) draws" "i < b"
  shows "1 \<le> add_label_noise (assemble_labels b) draws ! i"
proof -
  have len: "length (assemble_labels b) = 2 * b" by (simp add: assemble_labels_def)
  have i: "i < length (assemble_labels b)" using assms(2) len by simp
  have l: "assemble_labels b ! i = 1" using assms(2) by (simp add: assemble_labels_def nth_append)
  from perturbed_label [OF assms(1) [folded len] i]
  have eq: "add_label_noise (assemble_labels b) draws ! i = fadd 1 (label_noise (draws ! i))"
    and n: "0 \<le> label_noise (draws ! i)" by (simp_all add: l)
  have "pow2 0 \<le> fl (1 + label_noise (draws ! i))"
    by (rule fl_ge_pow2) (simp add: pow2_def n)
  then show ?thesis by (simp add: eq fadd_def pow2_def)
qed

lemma real_label_le:
  assumes "unit_draws (2 * b) draws" "b \<le> j" "j < 2 * b"
  shows "add_label_noise (assemble_labels b) draws ! j \<le> 1 / 16"
proof -
  have len: "length (assemble_labels b) = 2 * b" by (simp add: assemble_labels_def)
  have j: "j < length (assemble_labels b)" using assms(3) len by simp
  have l: "assemble_labels b ! j = 0" using assms(2,3) by (simp add: assemble_labels_def nth_append)
  from perturbed_label [OF assms(1) [folded len] j]
  have eq: "add_label_noise (assemble_labels b) draws ! j = fadd 0 (label_noise (draws ! j))"
    and n: "label_noise (draws ! j) \<le> fl (1 / 20)" by (simp_all add: l)
  have "fl (0 + label_noise (draws ! j)) \<le> pow2 (- 4)"
    by (rule fl_le_pow2) (use n in \<open>simp add: pow2_def double_0_05\<close>)
  then show ?thesis by (simp add: eq fadd_def pow2_def)
qed

text \<open>
  Claim C9. For a batch of size \<open>b\<close> and any distribution of the \<open>2b\<close> draws of
  \<^verbatim>\<open>np.random.random\<close>, the expected value of the perturbed label of a generated
  image (initialized to 1, at an index below \<open>b\<close>) is strictly greater than the
  expected value of the perturbed label of a real image (initialized to 0, at an
  index from \<open>b\<close> on).
\<close>

theorem fake_labels_exceed_real_labels_in_expectation:
  assumes "distribution D" and "list_all (\<lambda>(p, draws). unit_draws (2 * b) draws) D"
    and "i < b" and "b \<le> j" and "j < 2 * b"
  shows "expectation D (\<lambda>draws. add_label_noise (assemble_labels b) draws ! j)
       < expectation D (\<lambda>draws. add_label_noise (assemble_labels b) draws ! i)"
proof -
  from assms(1) have pos: "list_all (\<lambda>(p, x). 0 \<le> p) D" and one: "sum_list (map fst D) = 1"
    by (simp_all add: distribution_def)
  have "list_all (\<lambda>(p, draws). add_label_noise (assemble_labels b) draws ! j \<le> 1 / 16) D"
    unfolding list_all_iff
  proof clarify
    fix p draws
    assume "(p, draws) \<in> set D"
    with assms(2) have "unit_draws (2 * b) draws" by (auto simp: list_all_iff)
    then show "add_label_noise (assemble_labels b) draws ! j \<le> 1 / 16"
      using assms(4,5) by (rule real_label_le)
  qed
  from weighted_sum_le [OF pos this]
  have "expectation D (\<lambda>draws. add_label_noise (assemble_labels b) draws ! j) \<le> 1 / 16"
    by (simp add: expectation_def one)
  moreover
  have "list_all (\<lambda>(p, draws). 1 \<le> add_label_noise (assemble_labels b) draws ! i) D"
    unfolding list_all_iff
  proof clarify
    fix p draws
    assume "(p, draws) \<in> set D"
    with assms(2) have "unit_draws (2 * b) draws" by (auto simp: list_all_iff)
    then show "1 \<le> add_label_noise (assemble_labels b) draws ! i"
      using assms(3) by (rule fake_label_ge)
  qed
  from weighted_sum_ge [OF pos this]
  have "1 \<le> expectation D (\<lambda>draws. add_label_noise (assemble_labels b) draws ! i)"
    by (simp add: expectation_def one)
  ultimately show ?thesis by simp
qed

theorem fake_labels_exceed_real_labels_in_expectation_witness:
  "distribution two_draws \<and>
   list_all (\<lambda>(p, draws). unit_draws (2 * 1) draws) two_draws \<and>
   expectation two_draws (\<lambda>draws. add_label_noise (assemble_labels 1) draws ! 1)
     < expectation two_draws (\<lambda>draws. add_label_noise (assemble_labels 1) draws ! 0)"
proof -
  have d: "distribution two_draws"
    by (simp add: distribution_def two_draws_def)
  have u: "list_all (\<lambda>(p, draws). unit_draws (2 * 1) draws) two_draws"
    by (simp add: unit_draws_def two_draws_def)
  from fake_labels_exceed_real_labels_in_expectation [OF d u, of 0 1] d u
  show ?thesis by simp
qed

subsection \<open>The generator's output shape\<close>

lemma generator_shape:
  "predict_shape (build_generator height width channels depth dropout w0) b
   = Some [b, 64, 64, channels]"
  by (simp add: predict_shape_def build_generator_def build_generator_layers_def latent_dim_def)

text \<open>
  Claim C7 at height 32 and width 32: the layers of \<^verbatim>\<open>build_generator\<close> do not
  use \<open>height\<close> and \<open>width\<close>; a batch of \<open>b\<close> latent vectors gives an output of
  shape \<open>(b, 64, 64, 3)\<close>, not \<open>(b, 32, 32, 3)\<close>.
\<close>

theorem generator_ignores_height_and_width:
  "predict_shape (build_generator 32 32 3 64 (3 / 10) w0) b = Some [b, 64, 64, 3]"
  by (simp add: predict_shape_def build_generator_def build_generator_layers_def latent_dim_def)

subsection \<open>The flag \<open>save_weights\<close>\<close>

text \<open>
  Claim C10. Two calls of \<^verbatim>\<open>train_gan\<close> that differ only in \<open>save_weights\<close>
  behave alike: the same exception or normal end, the same weights, optimizer states
  and random state afterwards, and the same calls, printed losses and files written,
  in the same order.
\<close>

theorem train_gan_ignores_save_weights:
  "train_gan K s x_train iterations save_dir batch_size save_intervals save_weights
   = train_gan K s x_train iterations save_dir batch_size save_intervals save_weights'"
  by (simp add: train_gan_def)

end
